theory Spec2Isabelle
  imports Main "HOL-Library.AList"
begin

section \<open>The dual-record synchronization layer of the career web application\<close>

text \<open>
  The development embeds three source modules: the key derivation and the detail store
  of \<^verbatim>\<open>userStorage.js\<close> (\<^verbatim>\<open>getFileName\<close>, \<^verbatim>\<open>saveUserJson\<close>, \<^verbatim>\<open>loadUserJson\<close>,
  \<^verbatim>\<open>deleteOldImage\<close>, \<^verbatim>\<open>updateCSVRow\<close>, \<^verbatim>\<open>saveUserDataDual\<close>), the summary store of
  \<^verbatim>\<open>csv.js\<close> (\<^verbatim>\<open>parseCSV\<close>, \<^verbatim>\<open>readCSV\<close>, \<^verbatim>\<open>findUserByEmail\<close>) and the avatar
  assignment of \<^verbatim>\<open>avatars.js\<close> (\<^verbatim>\<open>getRandomAvatarFile\<close>).

  Modelling decisions.
  \<^item> A JavaScript string is a \<^typ>\<open>string\<close>; one character stands for one code unit and
    the model covers ASCII text: \<^verbatim>\<open>toLowerCase\<close> maps \<open>A\<close>..\<open>Z\<close> and leaves every other
    character alone, white space is the ASCII white space.
  \<^item> An object with string fields (a row of the summary store) is an association list in
    insertion order; an absent field is \<open>undefined\<close>, that is \<^const>\<open>None\<close>. Field names
    that are array indices, which JavaScript enumerates first, are not modelled.
  \<^item> The payload and the detail record are typed: a text field holds a string, a list field
    a list of strings; \<^verbatim>\<open>recommendations_selected\<close> is either.
  \<^item> The browser's local storage is a record of the four kinds of keys the modules use.
    The values are kept parsed: \<^verbatim>\<open>JSON.parse\<close> undoes \<^verbatim>\<open>JSON.stringify\<close> on objects of
    strings and lists of strings, so two stored values have the same serialized form
    exactly when they are equal.
  \<^item> Everything a call cannot control is its environment: whether the baseline file can
    be fetched and its text, for which keys \<^verbatim>\<open>setItem\<close> throws (quota), and the outcomes
    of \<^verbatim>\<open>Math.random\<close>. The baseline and the quota are the same for all the steps of
    one call of an exported function and may change from one call to the next; the
    random outcomes differ from read to read. All calls to the asynchronous functions run
    to completion one after the other, as the single-threaded code does.
\<close>

subsection \<open>Strings\<close>

definition upper_letters :: string where
  "upper_letters = ''ABCDEFGHIJKLMNOPQRSTUVWXYZ''"

definition lower_letters :: string where
  "lower_letters = ''abcdefghijklmnopqrstuvwxyz''"

definition digits :: string where
  "digits = ''0123456789''"

text \<open>The character class \<^verbatim>\<open>[a-zA-Z0-9]\<close>.\<close>

definition is_alnum :: "char \<Rightarrow> bool" where
  "is_alnum c = (c \<in> set (lower_letters @ upper_letters @ digits))"

text \<open>The class \<^verbatim>\<open>\s\<close> on ASCII: space, tab, line feed, vertical tab, form feed, carriage return.\<close>

definition is_space :: "char \<Rightarrow> bool" where
  "is_space c = (c \<in> set [CHR '' '', CHR 0x09, CHR 0x0A, CHR 0x0B, CHR 0x0C, CHR 0x0D])"

definition lower_char :: "char \<Rightarrow> char" where
  "lower_char c = (case map_of (zip upper_letters lower_letters) c of Some l \<Rightarrow> l | None \<Rightarrow> c)"

definition toLowerCase :: "string \<Rightarrow> string" where
  "toLowerCase s = map lower_char s"

text \<open>\<^verbatim>\<open>s.trim()\<close>.\<close>

definition trim :: "string \<Rightarrow> string" where
  "trim s = rev (dropWhile is_space (rev (dropWhile is_space s)))"

text \<open>\<^verbatim>\<open>s.split(c)\<close> for a one-character separator: always at least one piece.\<close>

fun split :: "char \<Rightarrow> string \<Rightarrow> string list" where
  "split sep [] = [[]]"
| "split sep (x # xs) =
     (if x = sep then [] # split sep xs
      else (case split sep xs of [] \<Rightarrow> [[x]] | w # ws \<Rightarrow> (x # w) # ws))"

text \<open>\<^verbatim>\<open>xs.join(sep)\<close>.\<close>

fun join :: "string \<Rightarrow> string list \<Rightarrow> string" where
  "join sep [] = []"
| "join sep [x] = x"
| "join sep (x # y # ys) = x @ sep @ join sep (y # ys)"

text \<open>
  Truthiness of a value that is a string or \<open>undefined\<close>, and \<^verbatim>\<open>x || d\<close> on such values.
\<close>

fun truthy :: "string option \<Rightarrow> bool" where
  "truthy None = False"
| "truthy (Some s) = (s \<noteq> [])"

fun or_str :: "string option \<Rightarrow> string \<Rightarrow> string" where
  "or_str None d = d"
| "or_str (Some s) d = (if s \<noteq> [] then s else d)"

text \<open>\<^verbatim>\<open>x || []\<close> on a value that is a list or \<open>undefined\<close>: every list is truthy.\<close>

fun or_list :: "string list option \<Rightarrow> string list" where
  "or_list None = []"
| "or_list (Some xs) = xs"

subsection \<open>Key derivation (\<^verbatim>\<open>getFileName\<close>)\<close>

text \<open>\<^verbatim>\<open>.replace(/[^a-zA-Z0-9]/g, "_")\<close>: every character outside the class becomes \<open>_\<close>.\<close>

definition replace_non_alnum :: "string \<Rightarrow> string" where
  "replace_non_alnum s = map (\<lambda>c. if is_alnum c then c else CHR ''_'') s"

text \<open>\<^verbatim>\<open>.replace(/\s+/g, "_")\<close>: every maximal run of white space becomes one \<open>_\<close>.\<close>

function replace_spaces :: "string \<Rightarrow> string" where
  "replace_spaces [] = []"
| "replace_spaces (c # cs) =
     (if is_space c then CHR ''_'' # replace_spaces (dropWhile is_space cs)
      else c # replace_spaces cs)"
  by pat_completeness auto
termination
  by (relation "measure length") (auto simp: length_dropWhile_le less_Suc_eq_le)

definition getFileName :: "string \<Rightarrow> string" where
  "getFileName name = toLowerCase (replace_spaces (replace_non_alnum name))"

text \<open>
  The key derivation as the specification words it: the name lowercased, the characters
  outside \<^verbatim>\<open>[a-zA-Z0-9]\<close> stripped, white space collapsed. Collapsing is taken to
  be the white-space step of the code; after stripping there is no white space left for
  it, whatever it does.
\<close>

definition spec_key :: "string \<Rightarrow> string" where
  "spec_key name = replace_spaces (filter is_alnum (toLowerCase name))"

subsection \<open>Records of the two stores\<close>

text \<open>A value that is a list of strings or one string (\<^verbatim>\<open>recommendations_selected\<close>).\<close>

datatype jsval = Str string | Arr "string list"

text \<open>
  The payload \<^verbatim>\<open>userData\<close> of \<^verbatim>\<open>saveUserDataDual\<close>: every field may be absent; the
  legacy fields \<^verbatim>\<open>name\<close> and \<^verbatim>\<open>email\<close> are read as fallbacks.
\<close>

record userData =
  ud_full_name :: "string option"
  ud_name :: "string option"
  ud_email_address :: "string option"
  ud_email :: "string option"
  ud_password :: "string option"
  ud_gender :: "string option"
  ud_country :: "string option"
  ud_year :: "string option"
  ud_education :: "string option"
  ud_interests :: "string list option"
  ud_custom_interest :: "string option"
  ud_skills :: "string list option"
  ud_custom_skill :: "string option"
  ud_profile_picture :: "string option"
  ud_bio :: "string option"
  ud_recommendations_saved :: "string list option"
  ud_recommendations_selected :: "jsval option"
  ud_recommendations_rejected :: "string list option"

text \<open>The detail record \<^verbatim>\<open>jsonData\<close>, in the order of its fields.\<close>

record jsonData =
  full_name :: string
  email_address :: string
  password :: string
  gender :: string
  country :: string
  year :: string
  education :: string
  interests :: "string list"
  custom_interest :: string
  skills :: "string list"
  custom_skill :: string
  profile_picture :: string
  bio :: string
  recommendations_saved :: "string list"
  recommendations_selected :: jsval
  recommendations_rejected :: "string list"

text \<open>A row of the summary store: an object whose fields are strings.\<close>

type_synonym row = "(string \<times> string) list"

definition fld :: "row \<Rightarrow> string \<Rightarrow> string option" where
  "fld u k = map_of u k"

subsection \<open>Local storage and the environment of a call\<close>

datatype skey = Key_user_json string | Key_user_files | Key_csv_users | Key_deleted_images

text \<open>
  \<open>user_json\<close> holds the items \<^verbatim>\<open>user_json_{fileName}\<close>, indexed by the file name; the
  other three items are absent (\<^const>\<open>None\<close>) until first written.
\<close>

record storage =
  user_json :: "string \<Rightarrow> jsonData option"
  user_files :: "(string \<times> string) list option"
  csv_users :: "row list option"
  deleted_images :: "string list option"

definition empty_storage :: storage where
  "empty_storage =
     \<lparr>user_json = (\<lambda>k. None), user_files = None, csv_users = None, deleted_images = None\<rparr>"

text \<open>
  \<open>fetch_csv\<close> is the text of the baseline file, \<^const>\<open>None\<close> when neither fetch
  succeeds; \<open>quota_exceeded k\<close> says that \<^verbatim>\<open>localStorage.setItem\<close> throws for key \<open>k\<close>;
  \<open>draw n i\<close> is the avatar index drawn for the row at position \<open>i\<close> in the \<open>n\<close>-th read
  of the summary store within the call.
\<close>

record env =
  fetch_csv :: "string option"
  quota_exceeded :: "skey \<Rightarrow> bool"
  draw :: "nat \<Rightarrow> nat \<Rightarrow> nat"

text \<open>The outcome of a block that may throw: the storage as it is at that moment.\<close>

datatype outcome = Return storage | Throw storage

text \<open>\<^verbatim>\<open>JSON.parse(localStorage.getItem(key) || "[]")\<close> and its companion for objects.\<close>

definition get_csv_users :: "storage \<Rightarrow> row list" where
  "get_csv_users s = (case csv_users s of None \<Rightarrow> [] | Some us \<Rightarrow> us)"

definition get_deleted_images :: "storage \<Rightarrow> string list" where
  "get_deleted_images s = (case deleted_images s of None \<Rightarrow> [] | Some ps \<Rightarrow> ps)"

definition get_user_files :: "storage \<Rightarrow> (string \<times> string) list" where
  "get_user_files s = (case user_files s of None \<Rightarrow> [] | Some fs \<Rightarrow> fs)"

definition setItem_user_json :: "env \<Rightarrow> string \<Rightarrow> jsonData \<Rightarrow> storage \<Rightarrow> outcome" where
  "setItem_user_json e fileName d s =
     (if quota_exceeded e (Key_user_json fileName) then Throw s
      else Return (s\<lparr>user_json := (user_json s)(fileName := Some d)\<rparr>))"

definition setItem_user_files :: "env \<Rightarrow> (string \<times> string) list \<Rightarrow> storage \<Rightarrow> outcome" where
  "setItem_user_files e fs s =
     (if quota_exceeded e Key_user_files then Throw s else Return (s\<lparr>user_files := Some fs\<rparr>))"

definition setItem_csv_users :: "env \<Rightarrow> row list \<Rightarrow> storage \<Rightarrow> outcome" where
  "setItem_csv_users e us s =
     (if quota_exceeded e Key_csv_users then Throw s else Return (s\<lparr>csv_users := Some us\<rparr>))"

definition setItem_deleted_images :: "env \<Rightarrow> string list \<Rightarrow> storage \<Rightarrow> outcome" where
  "setItem_deleted_images e ps s =
     (if quota_exceeded e Key_deleted_images then Throw s
      else Return (s\<lparr>deleted_images := Some ps\<rparr>))"

subsection \<open>Avatar assignment (\<^verbatim>\<open>avatars.js\<close>)\<close>

text \<open>The catalog: file name and gender of each avatar.\<close>

definition avatarCatalog :: "(string \<times> string) list" where
  "avatarCatalog =
     [(''01_female_2001.jpg.jpg'', ''female''), (''02_male_1998.jpg.jpg'', ''male''),
      (''03_male_1997.jpg.jpeg'', ''male''), (''04_female_1987.jpg.jpeg'', ''female''),
      (''5_female_1986.jpg.jpg'', ''female''), (''06_male_1999.jpg.jpg'', ''male''),
      (''07_female_2001.jpg.jpg'', ''female''), (''08_male_1968.jpg.jpg'', ''male''),
      (''09_male_1982.jpg.jpg'', ''male''), (''10_male_19981.jpg.jpg'', ''male''),
      (''11_male_1970.jpg.jpg'', ''male''), (''12_female_1989.jpg.jpg'', ''female''),
      (''12_male_2011.jpg.jpeg'', ''male'')]"

text \<open>
  \<^verbatim>\<open>getRandomAvatarFile(gender = 'other')\<close>. The number \<open>d\<close> stands for the outcome of
  \<^verbatim>\<open>Math.random()\<close>: \<^verbatim>\<open>Math.floor(Math.random() * pool.length)\<close> can be any index of the
  pool, and so can \<open>d mod length pool\<close>.
\<close>

definition getRandomAvatarFile :: "string option \<Rightarrow> nat \<Rightarrow> string" where
  "getRandomAvatarFile g d =
     (let normalizedGender = toLowerCase (case g of None \<Rightarrow> ''other'' | Some x \<Rightarrow> x);
          genderSpecific = filter (\<lambda>avatar. snd avatar = normalizedGender) avatarCatalog;
          pool = (if genderSpecific \<noteq> [] then genderSpecific else avatarCatalog);
          randomIndex = d mod length pool
      in fst (pool ! randomIndex))"

subsection \<open>The summary store (\<^verbatim>\<open>csv.js\<close>)\<close>

text \<open>\<^verbatim>\<open>values[index] || ""\<close>.\<close>

definition value_at :: "string list \<Rightarrow> nat \<Rightarrow> string" where
  "value_at values i = (if i < length values then values ! i else [])"

text \<open>
  The \<^verbatim>\<open>headers.forEach\<close> loop: \<^verbatim>\<open>user[header] = values[index] || ""\<close>; a header that
  occurs twice overwrites the field in place.
\<close>

definition build_user :: "string list \<Rightarrow> string list \<Rightarrow> row" where
  "build_user headers values =
     foldl (\<lambda>user (i, header). AList.update header (value_at values i) user) []
       (enumerate 0 headers)"

text \<open>The fields \<^verbatim>\<open>u.email\<close> and \<^verbatim>\<open>u.email_address\<close> of a row.\<close>

definition email_field :: "row \<Rightarrow> string option" where
  "email_field u = fld u ''email''"

definition email_address_field :: "row \<Rightarrow> string option" where
  "email_address_field u = fld u ''email_address''"

text \<open>The loop of \<^verbatim>\<open>parseCSV\<close> over the lines after the header line.\<close>

fun parse_lines :: "string list \<Rightarrow> string list \<Rightarrow> row list" where
  "parse_lines headers [] = []"
| "parse_lines headers (l # ls) =
     (if trim l = [] then parse_lines headers ls
      else (let values = map trim (split (CHR '','') l);
                user = build_user headers values
            in if truthy (email_field user) \<or> truthy (email_address_field user)
               then user # parse_lines headers ls
               else parse_lines headers ls))"

definition parseCSV :: "string \<Rightarrow> row list" where
  "parseCSV csvText =
     (let lines = split (CHR 0x0A) (trim csvText)
      in if length lines < 2 then []
         else parse_lines (map trim (split (CHR '','') (hd lines))) (tl lines))"

text \<open>
  One round of the merge loop of \<^verbatim>\<open>readCSV\<close>:
  \<^verbatim>\<open>if (!allUsers.find((u) => u.email === cachedUser.email)) allUsers.push(cachedUser)\<close>.
  The comparison is on the field \<^verbatim>\<open>email\<close> alone; two rows without that field compare
  equal (\<open>undefined === undefined\<close>).
\<close>

definition merge_step :: "row list \<Rightarrow> row \<Rightarrow> row list" where
  "merge_step allUsers cachedUser =
     (if List.find (\<lambda>u. email_field u = email_field cachedUser) allUsers = None
      then allUsers @ [cachedUser] else allUsers)"

text \<open>The whole loop \<^verbatim>\<open>cachedUsers.forEach\<close>, started from \<^verbatim>\<open>[...users]\<close>.\<close>

definition merge_users :: "row list \<Rightarrow> row list \<Rightarrow> row list" where
  "merge_users users cachedUsers = foldl merge_step users cachedUsers"

text \<open>
  \<^verbatim>\<open>allUsers.map((user) => user.avatar ? user : {...user, avatar: getRandomAvatarFile(user.gender)})\<close>,
  the row at position \<open>i\<close> drawing \<open>rnd i\<close>.
\<close>

definition normalize_user :: "nat \<Rightarrow> row \<Rightarrow> row" where
  "normalize_user d user =
     (if truthy (fld user ''avatar'') then user
      else AList.update ''avatar'' (getRandomAvatarFile (fld user ''gender'') d) user)"

definition normalize_users :: "(nat \<Rightarrow> nat) \<Rightarrow> row list \<Rightarrow> row list" where
  "normalize_users rnd allUsers = map (\<lambda>(i, user). normalize_user (rnd i) user) (enumerate 0 allUsers)"

text \<open>
  \<^verbatim>\<open>readCSV\<close>, the \<open>n\<close>-th read of the call. A failed fetch throws into the \<^verbatim>\<open>catch\<close>
  block, and so does a failed write of the cache: both return the cached rows.
\<close>

definition readCSV :: "env \<Rightarrow> nat \<Rightarrow> storage \<Rightarrow> row list \<times> storage" where
  "readCSV e n s =
     (case fetch_csv e of
        None \<Rightarrow> (get_csv_users s, s)
      | Some csvText \<Rightarrow>
          (let users = parseCSV csvText;
               cachedUsers = get_csv_users s;
               allUsers = merge_users users cachedUsers;
               normalizedUsers = normalize_users (draw e n) allUsers
           in case setItem_csv_users e normalizedUsers s of
                Throw s' \<Rightarrow> (get_csv_users s', s')
              | Return s' \<Rightarrow> (normalizedUsers, s')))"

text \<open>
  The predicate of \<^verbatim>\<open>findUserByEmail\<close> and of \<^verbatim>\<open>updateCSVRow\<close>:
  \<^verbatim>\<open>u.email?.toLowerCase() === email.toLowerCase() || u.email_address?.toLowerCase() === email.toLowerCase()\<close>.
\<close>

definition lower_eq :: "string option \<Rightarrow> string \<Rightarrow> bool" where
  "lower_eq v email = (case v of None \<Rightarrow> False | Some x \<Rightarrow> toLowerCase x = toLowerCase email)"

definition email_matches :: "string \<Rightarrow> row \<Rightarrow> bool" where
  "email_matches email u =
     (lower_eq (email_field u) email \<or> lower_eq (email_address_field u) email)"

text \<open>The two fields of a row that the lookups by email read.\<close>

definition email_fields :: "row \<Rightarrow> string option \<times> string option" where
  "email_fields u = (email_field u, email_address_field u)"

definition findUserByEmail :: "env \<Rightarrow> nat \<Rightarrow> string \<Rightarrow> storage \<Rightarrow> row option \<times> storage" where
  "findUserByEmail e n email s =
     (let (users, s') = readCSV e n s in (List.find (email_matches email) users, s'))"

text \<open>\<^verbatim>\<open>xs.findIndex(p)\<close>, with \<^const>\<open>None\<close> for \<open>-1\<close>.\<close>

fun findIndex :: "('a \<Rightarrow> bool) \<Rightarrow> 'a list \<Rightarrow> nat option" where
  "findIndex p [] = None"
| "findIndex p (x # xs) =
     (if p x then Some 0 else (case findIndex p xs of None \<Rightarrow> None | Some i \<Rightarrow> Some (Suc i)))"

subsection \<open>The detail store and the synchronization engine (\<^verbatim>\<open>userStorage.js\<close>)\<close>

text \<open>
  \<^verbatim>\<open>saveUserJson(name, userData, oldName = null)\<close>. The whole body is one \<^verbatim>\<open>try\<close> block:
  a throwing \<^verbatim>\<open>setItem\<close> ends it with \<open>false\<close> and keeps what was done before.
\<close>

definition rename_step :: "env \<Rightarrow> string \<Rightarrow> string option \<Rightarrow> storage \<Rightarrow> outcome" where
  "rename_step e name oldName s =
     (case oldName of
        None \<Rightarrow> Return s
      | Some old \<Rightarrow>
          (if old \<noteq> [] \<and> old \<noteq> name
           then (let oldFileName = getFileName old;
                     s1 = s\<lparr>user_json := (user_json s)(oldFileName := None)\<rparr>;
                     userFiles = AList.delete old (get_user_files s1)
                 in setItem_user_files e userFiles s1)
           else Return s))"

definition saveUserJson :: "env \<Rightarrow> string \<Rightarrow> jsonData \<Rightarrow> string option \<Rightarrow> storage \<Rightarrow> bool \<times> storage" where
  "saveUserJson e name data oldName s =
     (let fileName = getFileName name
      in case rename_step e name oldName s of
           Throw s' \<Rightarrow> (False, s')
         | Return s1 \<Rightarrow>
             (case setItem_user_json e fileName data s1 of
                Throw s' \<Rightarrow> (False, s')
              | Return s2 \<Rightarrow>
                  (case setItem_user_files e (AList.update name fileName (get_user_files s2)) s2 of
                     Throw s' \<Rightarrow> (False, s')
                   | Return s3 \<Rightarrow> (True, s3))))"

text \<open>\<^verbatim>\<open>loadUserJson(name)\<close>: \<open>null\<close> is \<^const>\<open>None\<close>.\<close>

definition loadUserJson :: "string \<Rightarrow> storage \<Rightarrow> jsonData option" where
  "loadUserJson name s = user_json s (getFileName name)"

text \<open>\<^verbatim>\<open>deleteOldImage(imagePath)\<close>; a throwing write is caught and logged.\<close>

definition deleteOldImage :: "env \<Rightarrow> string option \<Rightarrow> storage \<Rightarrow> storage" where
  "deleteOldImage e imagePath s =
     (case imagePath of
        None \<Rightarrow> s
      | Some p \<Rightarrow>
          (if p = [] then s
           else (let deletedImages = get_deleted_images s
                 in if p \<in> set deletedImages then s
                    else (case setItem_deleted_images e (deletedImages @ [p]) s of
                            Throw s' \<Rightarrow> s'
                          | Return s' \<Rightarrow> s'))))"

text \<open>The row literal of \<^verbatim>\<open>updateCSVRow\<close>: nine fields, each \<^verbatim>\<open>updatedData.f || ""\<close>.\<close>

definition csv_fields :: "string list" where
  "csv_fields = [''full_name'', ''email_address'', ''password'', ''gender'', ''country'', ''year'',
                 ''profile_picture'', ''recommendations_selected'', ''bio'']"

definition overwrite_row :: "row \<Rightarrow> row" where
  "overwrite_row updatedData = map (\<lambda>k. (k, or_str (fld updatedData k) [])) csv_fields"

definition image_changed :: "string option \<Rightarrow> row \<Rightarrow> bool" where
  "image_changed oldImagePath updatedData =
     (truthy oldImagePath \<and> oldImagePath \<noteq> fld updatedData ''profile_picture'')"

definition updateCSVRow :: "env \<Rightarrow> nat \<Rightarrow> string \<Rightarrow> row \<Rightarrow> string option \<Rightarrow> storage \<Rightarrow> bool \<times> storage" where
  "updateCSVRow e n email updatedData oldImagePath s =
     (let (users, s1) = readCSV e n s
      in case findIndex (email_matches email) users of
           None \<Rightarrow> (False, s1)
         | Some userIndex \<Rightarrow>
             (let s2 = (if image_changed oldImagePath updatedData
                        then deleteOldImage e oldImagePath s1 else s1)
              in case setItem_csv_users e (users[userIndex := overwrite_row updatedData]) s2 of
                   Throw s' \<Rightarrow> (False, s')
                 | Return s' \<Rightarrow> (True, s')))"

text \<open>\<^verbatim>\<open>userData.full_name || userData.name\<close> and \<^verbatim>\<open>userData.email_address || userData.email\<close>.\<close>

definition fullName_of :: "userData \<Rightarrow> string option" where
  "fullName_of u = (if truthy (ud_full_name u) then ud_full_name u else ud_name u)"

definition email_of :: "userData \<Rightarrow> string option" where
  "email_of u = (if truthy (ud_email_address u) then ud_email_address u else ud_email u)"

text \<open>The check \<^verbatim>\<open>if (!fullName || !email) return false\<close> passes exactly on a valid payload.\<close>

definition valid_payload :: "userData \<Rightarrow> bool" where
  "valid_payload u = (truthy (fullName_of u) \<and> truthy (email_of u))"

text \<open>\<^verbatim>\<open>userData.recommendations_selected || []\<close>.\<close>

fun or_selected :: "jsval option \<Rightarrow> jsval" where
  "or_selected None = Arr []"
| "or_selected (Some (Str s)) = (if s \<noteq> [] then Str s else Arr [])"
| "or_selected (Some (Arr xs)) = Arr xs"

text \<open>
  \<^verbatim>\<open>Array.isArray(x) ? x.join("; ") : x || ""\<close> for \<^verbatim>\<open>recommendations_selected\<close>.
\<close>

fun selected_csv :: "jsval option \<Rightarrow> string" where
  "selected_csv None = []"
| "selected_csv (Some (Str s)) = s"
| "selected_csv (Some (Arr xs)) = join ''; '' xs"

text \<open>The object literals \<^verbatim>\<open>jsonData\<close> and \<^verbatim>\<open>csvData\<close> of \<^verbatim>\<open>saveUserDataDual\<close>.\<close>

definition mk_jsonData :: "string \<Rightarrow> string \<Rightarrow> userData \<Rightarrow> jsonData" where
  "mk_jsonData fullName email u =
     \<lparr>full_name = fullName,
      email_address = email,
      password = or_str (ud_password u) [],
      gender = or_str (ud_gender u) [],
      country = or_str (ud_country u) [],
      year = or_str (ud_year u) [],
      education = or_str (ud_education u) [],
      interests = or_list (ud_interests u),
      custom_interest = or_str (ud_custom_interest u) [],
      skills = or_list (ud_skills u),
      custom_skill = or_str (ud_custom_skill u) [],
      profile_picture = or_str (ud_profile_picture u) [],
      bio = or_str (ud_bio u) [],
      recommendations_saved = or_list (ud_recommendations_saved u),
      recommendations_selected = or_selected (ud_recommendations_selected u),
      recommendations_rejected = or_list (ud_recommendations_rejected u)\<rparr>"

definition mk_csvData :: "string \<Rightarrow> string \<Rightarrow> userData \<Rightarrow> row" where
  "mk_csvData fullName email u =
     [(''full_name'', fullName),
      (''email_address'', email),
      (''password'', or_str (ud_password u) []),
      (''gender'', or_str (ud_gender u) []),
      (''country'', or_str (ud_country u) []),
      (''year'', or_str (ud_year u) []),
      (''profile_picture'', or_str (ud_profile_picture u) []),
      (''recommendations_selected'', selected_csv (ud_recommendations_selected u)),
      (''bio'', or_str (ud_bio u) [])]"

text \<open>
  The summary half of \<^verbatim>\<open>saveUserDataDual\<close>, after the detail record has been saved with
  result \<open>jsonSaved\<close>. The result of \<^verbatim>\<open>updateCSVRow\<close> is dropped; the \<^verbatim>\<open>setItem\<close> of the
  append branch is guarded by the outer \<^verbatim>\<open>try\<close> alone, whose \<^verbatim>\<open>catch\<close> returns \<open>false\<close>.
\<close>

definition sync_csv :: "env \<Rightarrow> bool \<Rightarrow> string \<Rightarrow> row \<Rightarrow> string option \<Rightarrow> storage \<Rightarrow> bool \<times> storage" where
  "sync_csv e jsonSaved email csvData oldImagePath s1 =
     (let (existingUser, s2) = findUserByEmail e 0 email s1
      in case existingUser of
           Some _ \<Rightarrow>
             (let (_, s3) = updateCSVRow e 1 email csvData oldImagePath s2 in (jsonSaved, s3))
         | None \<Rightarrow>
             (let (users, s3) = readCSV e 1 s2
              in case setItem_csv_users e (users @ [csvData]) s3 of
                   Throw s' \<Rightarrow> (False, s')
                 | Return s' \<Rightarrow> (jsonSaved, s')))"

text \<open>\<^verbatim>\<open>saveUserDataDual(userData, oldName = null, oldImagePath = null)\<close>.\<close>

definition saveUserDataDual :: "env \<Rightarrow> userData \<Rightarrow> string option \<Rightarrow> string option \<Rightarrow> storage \<Rightarrow> bool \<times> storage" where
  "saveUserDataDual e u oldName oldImagePath s =
     (if valid_payload u
      then (let fullName = the (fullName_of u);
                email = the (email_of u);
                jsonData = mk_jsonData fullName email u;
                (jsonSaved, s1) = saveUserJson e fullName jsonData oldName s;
                csvData = mk_csvData fullName email u
            in sync_csv e jsonSaved email csvData oldImagePath s1)
      else (False, s))"

subsection \<open>Sequences of calls\<close>

text \<open>One call \<^verbatim>\<open>saveUserDataDual(userData, oldName, oldImagePath)\<close> with its environment.\<close>

datatype call = Call env userData "string option" "string option"

fun run_calls :: "call list \<Rightarrow> storage \<Rightarrow> storage" where
  "run_calls [] s = s"
| "run_calls (Call e u oldName oldImagePath # cs) s =
     run_calls cs (snd (saveUserDataDual e u oldName oldImagePath s))"

subsection \<open>Concrete inputs\<close>

text \<open>A baseline file with the legacy header and one with the current header.\<close>

definition legacy_csv :: string where
  "legacy_csv = ''name,email,password'' @ [CHR 0x0A] @ ''Ann Lee,ann@x.test,secret1''"

definition current_csv :: string where
  "current_csv =
     ''full_name,email_address,password'' @ [CHR 0x0A] @ ''Ada Lovelace,ada@x.test,secret1''"

text \<open>Environments in which no write fails: without the baseline, and with either file.\<close>

definition env_offline :: env where
  "env_offline = \<lparr>fetch_csv = None, quota_exceeded = (\<lambda>k. False), draw = (\<lambda>n i. 0)\<rparr>"

definition env_legacy :: env where
  "env_legacy = \<lparr>fetch_csv = Some legacy_csv, quota_exceeded = (\<lambda>k. False), draw = (\<lambda>n i. 0)\<rparr>"

definition env_current :: env where
  "env_current = \<lparr>fetch_csv = Some current_csv, quota_exceeded = (\<lambda>k. False), draw = (\<lambda>n i. 0)\<rparr>"

text \<open>An environment in which writing the item \<^verbatim>\<open>csv_users\<close> throws.\<close>

definition env_csv_full :: env where
  "env_csv_full =
     \<lparr>fetch_csv = None, quota_exceeded = (\<lambda>k. k = Key_csv_users), draw = (\<lambda>n i. 0)\<rparr>"

text \<open>The payload with no field at all, and payloads built from it.\<close>

definition blank_payload :: userData where
  "blank_payload =
     \<lparr>ud_full_name = None, ud_name = None, ud_email_address = None, ud_email = None,
      ud_password = None, ud_gender = None, ud_country = None, ud_year = None,
      ud_education = None, ud_interests = None, ud_custom_interest = None, ud_skills = None,
      ud_custom_skill = None, ud_profile_picture = None, ud_bio = None,
      ud_recommendations_saved = None, ud_recommendations_selected = None,
      ud_recommendations_rejected = None\<rparr>"

definition payload :: "string \<Rightarrow> string \<Rightarrow> userData" where
  "payload n em = blank_payload\<lparr>ud_full_name := Some n, ud_email_address := Some em\<rparr>"

definition legacy_payload :: userData where
  "legacy_payload = blank_payload\<lparr>ud_name := Some ''Ada'', ud_email := Some ''ada@x.test''\<rparr>"

definition python_payload :: userData where
  "python_payload = (payload ''Ann Lee'' ''ann@x.test'')\<lparr>ud_skills := Some [''Python'']\<rparr>"

definition cleared_payload :: userData where
  "cleared_payload =
     (payload ''Ann Lee'' ''ann@x.test'')\<lparr>ud_interests := Some [], ud_skills := Some []\<rparr>"

text \<open>A store in which one path is already marked for deletion.\<close>

definition marked_storage :: storage where
  "marked_storage = empty_storage\<lparr>deleted_images := Some [''Faces/a.jpg'']\<rparr>"

text \<open>
  The stores reached from the empty store by a signup of Bob over the current baseline, by
  signups of Bob and Carol over the legacy baseline, by one and by two profile saves of Ann
  over the legacy baseline, and by a profile save of Ann with one skill and no baseline.
\<close>

definition bob_signed_up :: storage where
  "bob_signed_up =
     snd (saveUserDataDual env_current (payload ''Bob'' ''bob@x.test'') None None empty_storage)"

definition bob_carol_signed_up :: storage where
  "bob_carol_signed_up =
     snd (saveUserDataDual env_legacy (payload ''Carol'' ''carol@x.test'') None None
       (snd (saveUserDataDual env_legacy (payload ''Bob'' ''bob@x.test'') None None empty_storage)))"

definition ann_saved_once :: storage where
  "ann_saved_once =
     snd (saveUserDataDual env_legacy (payload ''Ann Lee'' ''ann@x.test'') None None empty_storage)"

definition ann_saved_twice :: storage where
  "ann_saved_twice =
     snd (saveUserDataDual env_legacy (payload ''Ann Lee'' ''ann@x.test'') None None ann_saved_once)"

definition python_storage :: storage where
  "python_storage = snd (saveUserDataDual env_offline python_payload None None empty_storage)"

section \<open>Properties\<close>

subsection \<open>Key derivation\<close>

lemma not_space_alnum: "is_alnum c \<Longrightarrow> \<not> is_space c"
  by (auto simp: is_alnum_def is_space_def lower_letters_def upper_letters_def digits_def)

lemma replace_spaces_id: "\<forall>c\<in>set s. \<not> is_space c \<Longrightarrow> replace_spaces s = s"
  by (induction s) auto

lemma no_space_replace_non_alnum: "c \<in> set (replace_non_alnum s) \<Longrightarrow> \<not> is_space c"
  by (auto simp: replace_non_alnum_def not_space_alnum) (simp add: is_space_def)

lemma lower_underscore: "lower_char (CHR ''_'') = CHR ''_''"
  by (simp add: lower_char_def upper_letters_def lower_letters_def)

lemma getFileName_map:
  "getFileName name = map (\<lambda>c. if is_alnum c then lower_char c else CHR ''_'') name"
proof -
  have "replace_spaces (replace_non_alnum name) = replace_non_alnum name"
    by (rule replace_spaces_id) (auto dest: no_space_replace_non_alnum)
  then show ?thesis
    by (simp add: getFileName_def toLowerCase_def replace_non_alnum_def lower_underscore)
qed

lemma spec_key_strips: "spec_key name = filter is_alnum (toLowerCase name)"
  unfolding spec_key_def by (rule replace_spaces_id) (auto dest: not_space_alnum)

lemmas string_eval =
  getFileName_map is_alnum_def lower_char_def upper_letters_def lower_letters_def digits_def
  is_space_def toLowerCase_def

subsection \<open>What each operation leaves alone\<close>

lemma readCSV_user_json [simp]: "user_json (snd (readCSV e n s)) = user_json s"
  by (simp add: readCSV_def setItem_csv_users_def Let_def split: option.splits)

lemma readCSV_user_files [simp]: "user_files (snd (readCSV e n s)) = user_files s"
  by (simp add: readCSV_def setItem_csv_users_def Let_def split: option.splits)

lemma readCSV_deleted_images [simp]: "deleted_images (snd (readCSV e n s)) = deleted_images s"
  by (simp add: readCSV_def setItem_csv_users_def Let_def split: option.splits)

lemma deleteOldImage_user_json [simp]: "user_json (deleteOldImage e p s) = user_json s"
  by (simp add: deleteOldImage_def setItem_deleted_images_def Let_def split: option.splits)

lemma deleteOldImage_user_files [simp]: "user_files (deleteOldImage e p s) = user_files s"
  by (simp add: deleteOldImage_def setItem_deleted_images_def Let_def split: option.splits)

lemma deleteOldImage_csv_users [simp]: "csv_users (deleteOldImage e p s) = csv_users s"
  by (simp add: deleteOldImage_def setItem_deleted_images_def Let_def split: option.splits)

lemma updateCSVRow_user_json [simp]: "user_json (snd (updateCSVRow e n em r p s)) = user_json s"
  by (simp add: updateCSVRow_def setItem_csv_users_def Let_def split_beta split: option.splits)

lemma updateCSVRow_user_files [simp]: "user_files (snd (updateCSVRow e n em r p s)) = user_files s"
  by (simp add: updateCSVRow_def setItem_csv_users_def Let_def split_beta split: option.splits)

lemma sync_csv_user_json [simp]: "user_json (snd (sync_csv e b em r p s)) = user_json s"
  by (simp add: sync_csv_def findUserByEmail_def setItem_csv_users_def Let_def split_beta
      split: option.splits)

lemma sync_csv_user_files [simp]: "user_files (snd (sync_csv e b em r p s)) = user_files s"
  by (simp add: sync_csv_def findUserByEmail_def setItem_csv_users_def Let_def split_beta
      split: option.splits)

lemma sync_csv_result:
  "fst (sync_csv e b em r p s) =
     (b \<and> (fst (findUserByEmail e 0 em s) \<noteq> None \<or> \<not> quota_exceeded e Key_csv_users))"
proof (cases "fst (findUserByEmail e 0 em s)")
  case None
  then show ?thesis
    by (simp add: sync_csv_def setItem_csv_users_def Let_def split_beta)
next
  case (Some a)
  then show ?thesis
    by (simp add: sync_csv_def Let_def split_beta)
qed

subsection \<open>The detail store\<close>

lemma saveUserJson_stored:
  assumes "fst (saveUserJson e name d oldName s)"
  shows "user_json (snd (saveUserJson e name d oldName s)) (getFileName name) = Some d"
proof (cases "rename_step e name oldName s")
  case (Return s1)
  with assms show ?thesis
    by (cases "quota_exceeded e (Key_user_json (getFileName name))";
        cases "quota_exceeded e Key_user_files")
       (simp_all add: saveUserJson_def setItem_user_json_def setItem_user_files_def Let_def)
next
  case (Throw s1)
  with assms show ?thesis by (simp add: saveUserJson_def Let_def)
qed

lemma saveUserJson_ok:
  assumes "\<not> quota_exceeded e (Key_user_json (getFileName name))"
    and "\<not> quota_exceeded e Key_user_files"
  shows "fst (saveUserJson e name d oldName s)"
proof (cases "rename_step e name oldName s")
  case (Return s1)
  with assms show ?thesis
    by (simp add: saveUserJson_def setItem_user_json_def setItem_user_files_def Let_def)
next
  case (Throw s1)
  with assms show ?thesis
    by (simp add: rename_step_def setItem_user_files_def Let_def split: option.splits if_splits)
qed

lemma rename_step_user_json:
  "user_json (case rename_step e name oldName s of Return s' \<Rightarrow> s' | Throw s' \<Rightarrow> s') k =
     (case oldName of None \<Rightarrow> user_json s k
      | Some old \<Rightarrow>
          if old \<noteq> [] \<and> old \<noteq> name \<and> k = getFileName old then None else user_json s k)"
  by (simp add: rename_step_def setItem_user_files_def Let_def split: option.splits)

lemma saveUserJson_other_key:
  assumes "k \<noteq> getFileName name"
  shows "user_json (snd (saveUserJson e name d oldName s)) k =
         (case oldName of None \<Rightarrow> user_json s k
          | Some old \<Rightarrow>
              if old \<noteq> [] \<and> old \<noteq> name \<and> k = getFileName old then None else user_json s k)"
proof -
  have "user_json (snd (saveUserJson e name d oldName s)) k =
        user_json (case rename_step e name oldName s of Return s' \<Rightarrow> s' | Throw s' \<Rightarrow> s') k"
    using assms
    by (cases "rename_step e name oldName s";
        cases "quota_exceeded e (Key_user_json (getFileName name))";
        cases "quota_exceeded e Key_user_files")
       (simp_all add: saveUserJson_def setItem_user_json_def setItem_user_files_def Let_def)
  then show ?thesis by (simp only: rename_step_user_json)
qed

subsection \<open>The merge\<close>

lemma merge_step_known:
  "email_field c \<in> email_field ` set acc \<Longrightarrow> merge_step acc c = acc"
  by (auto simp: merge_step_def find_None_iff)

lemma merge_step_fresh:
  "email_field c \<notin> email_field ` set acc \<Longrightarrow> merge_step acc c = acc @ [c]"
  by (auto simp: merge_step_def find_None_iff image_iff)

lemma merge_users_known:
  "\<forall>y\<in>set ys. email_field y \<in> email_field ` set acc \<Longrightarrow> merge_users acc ys = acc"
  unfolding merge_users_def by (induction ys) (simp_all add: merge_step_known)

lemma merge_users_fresh:
  "distinct (map email_field ys) \<Longrightarrow>
   email_field ` set ys \<inter> email_field ` set acc = {} \<Longrightarrow>
   merge_users acc ys = acc @ ys"
  unfolding merge_users_def
proof (induction ys arbitrary: acc)
  case Nil
  then show ?case by simp
next
  case (Cons y ys)
  have fresh: "email_field y \<notin> email_field ` set acc"
    using Cons.prems(2) by auto
  have "foldl merge_step (acc @ [y]) ys = (acc @ [y]) @ ys"
  proof (rule Cons.IH)
    show "distinct (map email_field ys)" using Cons.prems(1) by simp
    show "email_field ` set ys \<inter> email_field ` set (acc @ [y]) = {}"
      using Cons.prems by auto
  qed
  then show ?case by (simp add: merge_step_fresh [OF fresh])
qed

lemma merge_users_shape:
  "\<exists>xs. merge_users acc cs = acc @ xs \<and> distinct (map email_field xs) \<and>
        email_field ` set xs \<inter> email_field ` set acc = {}"
  unfolding merge_users_def
proof (induction cs arbitrary: acc)
  case Nil
  then show ?case by simp
next
  case (Cons c cs)
  show ?case
  proof (cases "email_field c \<in> email_field ` set acc")
    case True
    then show ?thesis using Cons.IH [of acc] by (simp add: merge_step_known)
  next
    case False
    from Cons.IH [of "acc @ [c]"] obtain xs where
      xs: "foldl merge_step (acc @ [c]) cs = (acc @ [c]) @ xs"
          "distinct (map email_field xs)"
          "email_field ` set xs \<inter> email_field ` set (acc @ [c]) = {}"
      by blast
    have "foldl merge_step acc (c # cs) = acc @ (c # xs)"
      using xs(1) by (simp add: merge_step_fresh [OF False])
    moreover have "distinct (map email_field (c # xs))"
      using xs(2,3) by auto
    moreover have "email_field ` set (c # xs) \<inter> email_field ` set acc = {}"
      using xs(3) False by auto
    ultimately show ?thesis by blast
  qed
qed

text \<open>Merging again, with rows that carry the same \<open>email\<close> fields, adds and drops nothing.\<close>

lemma merge_users_again:
  assumes "map email_field ys = map email_field (merge_users bs cs)"
  shows "merge_users bs ys = bs @ drop (length bs) ys"
proof -
  obtain xs where xs: "merge_users bs cs = bs @ xs"
      "distinct (map email_field xs)"
      "email_field ` set xs \<inter> email_field ` set bs = {}"
    using merge_users_shape by blast
  define y1 where "y1 = take (length bs) ys"
  define y2 where "y2 = drop (length bs) ys"
  have ys: "ys = y1 @ y2" by (simp add: y1_def y2_def)
  have len: "length ys = length bs + length xs"
    using assms xs(1) by (metis length_append length_map)
  have m: "map email_field ys = map email_field bs @ map email_field xs"
    using assms xs(1) by simp
  have m1: "map email_field y1 = map email_field bs"
    using arg_cong [OF m, of "take (length bs)"] by (simp add: y1_def take_map)
  have m2: "map email_field y2 = map email_field xs"
    using arg_cong [OF m, of "drop (length bs)"] by (simp add: y2_def drop_map)
  have s1: "email_field ` set y1 = email_field ` set bs"
    using arg_cong [OF m1, of set] by simp
  have s2: "email_field ` set y2 = email_field ` set xs"
    using arg_cong [OF m2, of set] by simp
  have "merge_users bs y1 = bs"
    by (rule merge_users_known) (use s1 in auto)
  moreover have "merge_users bs y2 = bs @ y2"
    by (rule merge_users_fresh) (use m2 s2 xs in auto)
  ultimately have "merge_users bs ys = bs @ y2"
    by (simp add: ys merge_users_def)
  then show ?thesis by (simp add: y2_def)
qed


subsection \<open>Reading twice\<close>

lemma normalize_user_email_field [simp]: "email_field (normalize_user d u) = email_field u"
  by (simp add: normalize_user_def email_field_def fld_def update_conv')

lemma normalize_user_email_address_field [simp]:
  "email_address_field (normalize_user d u) = email_address_field u"
  by (simp add: normalize_user_def email_address_field_def fld_def update_conv')

lemma map_enumerate_invariant:
  "(\<And>i u. f (g i u) = f u) \<Longrightarrow> map f (map (\<lambda>(i, u). g i u) (enumerate n xs)) = map f xs"
  by (induction xs arbitrary: n) simp_all

lemma normalize_users_email_field [simp]:
  "map email_field (normalize_users rnd xs) = map email_field xs"
  unfolding normalize_users_def by (rule map_enumerate_invariant) simp

lemma normalize_users_email_fields [simp]:
  "map email_fields (normalize_users rnd xs) = map email_fields xs"
  unfolding normalize_users_def by (rule map_enumerate_invariant) (simp add: email_fields_def)

lemma readCSV_offline: "fetch_csv e = None \<Longrightarrow> readCSV e n s = (get_csv_users s, s)"
  by (simp add: readCSV_def)

lemma readCSV_online:
  assumes "fetch_csv e = Some t" and "\<not> quota_exceeded e Key_csv_users"
  shows "readCSV e n s =
           (normalize_users (draw e n) (merge_users (parseCSV t) (get_csv_users s)),
            s\<lparr>csv_users :=
                Some (normalize_users (draw e n) (merge_users (parseCSV t) (get_csv_users s)))\<rparr>)"
  using assms by (simp add: readCSV_def setItem_csv_users_def Let_def)

lemma email_fields_fst: "map email_field xs = map fst (map email_fields xs)"
  by (simp add: email_fields_def comp_def)

lemma readCSV_twice:
  assumes "\<not> quota_exceeded e Key_csv_users"
  shows "map email_fields (fst (readCSV e m (snd (readCSV e n s)))) =
         map email_fields (fst (readCSV e n s))"
proof (cases "fetch_csv e")
  case None
  then show ?thesis by (simp add: readCSV_offline)
next
  case (Some t)
  define bs where "bs = parseCSV t"
  define cs where "cs = get_csv_users s"
  define r1 where "r1 = normalize_users (draw e n) (merge_users bs cs)"
  obtain xs where xs: "merge_users bs cs = bs @ xs"
    using merge_users_shape by blast
  have again: "merge_users bs r1 = bs @ drop (length bs) r1"
    by (rule merge_users_again [where cs = cs]) (simp add: r1_def)
  have "map email_fields (merge_users bs r1) =
        map email_fields bs @ drop (length bs) (map email_fields r1)"
    by (simp add: again drop_map)
  also have "\<dots> = map email_fields bs @ map email_fields xs"
    by (simp add: r1_def xs)
  also have "\<dots> = map email_fields r1"
    by (simp add: r1_def xs)
  finally have "map email_fields (normalize_users (draw e m) (merge_users bs r1)) =
                map email_fields r1"
    by simp
  then show ?thesis
    using Some assms
    by (simp add: readCSV_online get_csv_users_def bs_def cs_def r1_def)
qed

subsection \<open>Lookups by email\<close>

lemma email_matches_fields:
  "email_matches em u = (lower_eq (fst (email_fields u)) em \<or> lower_eq (snd (email_fields u)) em)"
  by (simp add: email_matches_def email_fields_def)

lemma find_email_cong:
  assumes "map email_fields xs = map email_fields ys"
  shows "(List.find (email_matches em) xs = None) = (List.find (email_matches em) ys = None)"
proof -
  have "(\<exists>x\<in>set xs. email_matches em x) =
        (\<exists>k\<in>set (map email_fields xs). lower_eq (fst k) em \<or> lower_eq (snd k) em)"
    by (simp add: email_matches_fields)
  also have "\<dots> = (\<exists>k\<in>set (map email_fields ys). lower_eq (fst k) em \<or> lower_eq (snd k) em)"
    by (simp only: assms)
  also have "\<dots> = (\<exists>x\<in>set ys. email_matches em x)"
    by (simp add: email_matches_fields)
  finally show ?thesis by (auto simp: find_None_iff)
qed

lemma findIndex_None: "(findIndex p xs = None) = (List.find p xs = None)"
  by (induction xs) (auto split: option.splits)

lemma findIndex_update:
  "findIndex p xs = Some i \<Longrightarrow> p y \<Longrightarrow> List.find p (xs[i := y]) = Some y"
  by (induction xs arbitrary: i) (auto split: option.splits if_splits)

lemma find_append_fresh: "List.find p xs = None \<Longrightarrow> p y \<Longrightarrow> List.find p (xs @ [y]) = Some y"
  by (induction xs) (auto split: if_splits)


subsection \<open>The summary row after a synchronization\<close>

lemma updateCSVRow_row:
  assumes "\<not> quota_exceeded e Key_csv_users"
    and "findIndex (email_matches em) (fst (readCSV e n s)) = Some i"
  shows "get_csv_users (snd (updateCSVRow e n em r oi s)) =
           (fst (readCSV e n s))[i := overwrite_row r]"
  using assms
  by (simp add: updateCSVRow_def setItem_csv_users_def get_csv_users_def Let_def split_beta)

lemma sync_csv_row:
  assumes quota: "\<not> quota_exceeded e Key_csv_users"
    and match: "email_matches em r"
    and same: "overwrite_row r = r"
  shows "List.find (email_matches em) (get_csv_users (snd (sync_csv e b em r oi s))) = Some r"
proof -
  define r1 where "r1 = fst (readCSV e 0 s)"
  define s2 where "s2 = snd (readCSV e 0 s)"
  define r2 where "r2 = fst (readCSV e 1 s2)"
  have cong: "(List.find (email_matches em) r2 = None) = (List.find (email_matches em) r1 = None)"
    unfolding r1_def r2_def s2_def by (rule find_email_cong) (rule readCSV_twice [OF quota])
  show ?thesis
  proof (cases "List.find (email_matches em) r1")
    case None
    then have "List.find (email_matches em) r2 = None" using cong by simp
    then have "List.find (email_matches em) (r2 @ [r]) = Some r"
      using match by (rule find_append_fresh)
    moreover have "get_csv_users (snd (sync_csv e b em r oi s)) = r2 @ [r]"
      using None quota
      by (simp add: sync_csv_def findUserByEmail_def setItem_csv_users_def get_csv_users_def
          Let_def split_beta r1_def r2_def s2_def)
    ultimately show ?thesis by simp
  next
    case (Some a)
    then have "findIndex (email_matches em) r2 \<noteq> None"
      using cong by (simp add: findIndex_None)
    then obtain i where i: "findIndex (email_matches em) r2 = Some i" by blast
    have "get_csv_users (snd (updateCSVRow e 1 em r oi s2)) = r2[i := overwrite_row r]"
      using quota i unfolding r2_def by (rule updateCSVRow_row)
    moreover have "snd (sync_csv e b em r oi s) = snd (updateCSVRow e 1 em r oi s2)"
      using Some
      by (simp add: sync_csv_def findUserByEmail_def Let_def split_beta r1_def s2_def)
    moreover have "List.find (email_matches em) (r2[i := r]) = Some r"
      using i match by (rule findIndex_update)
    ultimately show ?thesis by (simp add: same)
  qed
qed

lemma overwrite_row_csvData: "overwrite_row (mk_csvData n em u) = mk_csvData n em u"
  by (simp add: overwrite_row_def mk_csvData_def csv_fields_def fld_def)

lemma email_matches_csvData: "email_matches em (mk_csvData n em u)"
  by (simp add: email_matches_def email_address_field_def lower_eq_def mk_csvData_def fld_def)


subsection \<open>The dual write\<close>

lemma saveUserDataDual_invalid: "\<not> valid_payload u \<Longrightarrow> saveUserDataDual e u on oi s = (False, s)"
  by (simp add: saveUserDataDual_def)

lemma saveUserDataDual_valid:
  assumes "valid_payload u"
  shows "saveUserDataDual e u on oi s =
           sync_csv e
             (fst (saveUserJson e (the (fullName_of u))
                     (mk_jsonData (the (fullName_of u)) (the (email_of u)) u) on s))
             (the (email_of u))
             (mk_csvData (the (fullName_of u)) (the (email_of u)) u) oi
             (snd (saveUserJson e (the (fullName_of u))
                     (mk_jsonData (the (fullName_of u)) (the (email_of u)) u) on s))"
  using assms by (simp add: saveUserDataDual_def Let_def split_beta)

lemma saveUserDataDual_user_json:
  assumes "valid_payload u"
  shows "user_json (snd (saveUserDataDual e u on oi s)) =
         user_json (snd (saveUserJson e (the (fullName_of u))
                     (mk_jsonData (the (fullName_of u)) (the (email_of u)) u) on s))"
  by (simp add: saveUserDataDual_valid [OF assms])

lemma saveUserDataDual_detail:
  assumes "valid_payload u"
    and "\<not> quota_exceeded e (Key_user_json (getFileName (the (fullName_of u))))"
    and "\<not> quota_exceeded e Key_user_files"
  shows "loadUserJson (the (fullName_of u)) (snd (saveUserDataDual e u on oi s)) =
           Some (mk_jsonData (the (fullName_of u)) (the (email_of u)) u)"
  unfolding loadUserJson_def saveUserDataDual_user_json [OF assms(1)]
  by (rule saveUserJson_stored) (rule saveUserJson_ok [OF assms(2,3)])

lemma saveUserDataDual_result:
  assumes "valid_payload u"
  shows "fst (saveUserDataDual e u on oi s) =
           (fst (saveUserJson e (the (fullName_of u))
                   (mk_jsonData (the (fullName_of u)) (the (email_of u)) u) on s) \<and>
            (fst (findUserByEmail e 0 (the (email_of u))
                   (snd (saveUserJson e (the (fullName_of u))
                      (mk_jsonData (the (fullName_of u)) (the (email_of u)) u) on s))) \<noteq> None \<or>
             \<not> quota_exceeded e Key_csv_users))"
  by (simp only: saveUserDataDual_valid [OF assms] sync_csv_result)

lemma saveUserDataDual_ok:
  assumes "valid_payload u" and "\<forall>k. \<not> quota_exceeded e k"
  shows "fst (saveUserDataDual e u on oi s)"
  using assms by (simp add: saveUserDataDual_result saveUserJson_ok)

lemma saveUserDataDual_row:
  assumes "valid_payload u" and "\<not> quota_exceeded e Key_csv_users"
  shows "List.find (email_matches (the (email_of u)))
           (get_csv_users (snd (saveUserDataDual e u on oi s))) =
         Some (mk_csvData (the (fullName_of u)) (the (email_of u)) u)"
  unfolding saveUserDataDual_valid [OF assms(1)]
  by (rule sync_csv_row [OF assms(2) email_matches_csvData overwrite_row_csvData])

subsection \<open>The deletion-tracking list\<close>

lemma deleteOldImage_distinct:
  "distinct (get_deleted_images s) \<Longrightarrow> distinct (get_deleted_images (deleteOldImage e p s))"
  by (simp add: deleteOldImage_def setItem_deleted_images_def get_deleted_images_def Let_def
      split: option.splits)

lemma readCSV_get_deleted_images [simp]:
  "get_deleted_images (snd (readCSV e n s)) = get_deleted_images s"
  by (simp add: get_deleted_images_def)

lemma saveUserJson_deleted_images [simp]:
  "deleted_images (snd (saveUserJson e name d on s)) = deleted_images s"
  by (cases "rename_step e name on s";
      cases "quota_exceeded e (Key_user_json (getFileName name))";
      cases "quota_exceeded e Key_user_files")
     (auto simp add: saveUserJson_def rename_step_def setItem_user_json_def setItem_user_files_def
        Let_def split: option.splits if_splits)

lemma updateCSVRow_distinct:
  assumes "distinct (get_deleted_images s)"
  shows "distinct (get_deleted_images (snd (updateCSVRow e n em r oi s)))"
proof -
  have d: "distinct (get_deleted_images (snd (readCSV e n s)))" using assms by simp
  have "get_deleted_images (snd (updateCSVRow e n em r oi s)) = get_deleted_images (snd (readCSV e n s))
      \<or> get_deleted_images (snd (updateCSVRow e n em r oi s)) =
          get_deleted_images (deleteOldImage e oi (snd (readCSV e n s)))"
    by (simp add: updateCSVRow_def setItem_csv_users_def get_deleted_images_def Let_def split_beta
        split: option.splits)
  then show ?thesis using d deleteOldImage_distinct [OF d] by auto
qed

lemma sync_csv_distinct:
  assumes "distinct (get_deleted_images s)"
  shows "distinct (get_deleted_images (snd (sync_csv e b em r oi s)))"
proof (cases "fst (findUserByEmail e 0 em s)")
  case None
  then have "get_deleted_images (snd (sync_csv e b em r oi s)) = get_deleted_images s"
    by (simp add: sync_csv_def findUserByEmail_def setItem_csv_users_def get_deleted_images_def
        Let_def split_beta)
  then show ?thesis using assms by simp
next
  case (Some a)
  then have "snd (sync_csv e b em r oi s) =
             snd (updateCSVRow e 1 em r oi (snd (findUserByEmail e 0 em s)))"
    by (simp add: sync_csv_def Let_def split_beta)
  moreover have "distinct (get_deleted_images (snd (findUserByEmail e 0 em s)))"
    using assms by (simp add: findUserByEmail_def split_beta)
  ultimately show ?thesis by (simp add: updateCSVRow_distinct)
qed

lemma saveUserDataDual_distinct:
  assumes "distinct (get_deleted_images s)"
  shows "distinct (get_deleted_images (snd (saveUserDataDual e u on oi s)))"
proof (cases "valid_payload u")
  case True
  have "distinct (get_deleted_images (snd (saveUserJson e (the (fullName_of u))
           (mk_jsonData (the (fullName_of u)) (the (email_of u)) u) on s)))"
    using assms by (simp add: get_deleted_images_def)
  then show ?thesis
    unfolding saveUserDataDual_valid [OF True] by (rule sync_csv_distinct)
next
  case False
  then show ?thesis using assms by (simp add: saveUserDataDual_invalid)
qed

lemma run_calls_distinct:
  "distinct (get_deleted_images s) \<Longrightarrow> distinct (get_deleted_images (run_calls cs s))"
proof (induction cs arbitrary: s)
  case Nil
  then show ?case by simp
next
  case (Cons c cs)
  then show ?case by (cases c) (simp add: saveUserDataDual_distinct)
qed

lemma deleteOldImage_marked:
  "p \<in> set (get_deleted_images s) \<Longrightarrow> deleteOldImage e (Some p) s = s"
  by (simp add: deleteOldImage_def Let_def)


subsection \<open>Saving twice\<close>

lemma valid_payloadI:
  "fullName_of u = Some name \<Longrightarrow> name \<noteq> [] \<Longrightarrow> email_of u = Some email \<Longrightarrow> email \<noteq> [] \<Longrightarrow>
   valid_payload u"
  by (simp add: valid_payload_def)

lemma saveUserJson_plain:
  assumes "\<not> quota_exceeded e (Key_user_json (getFileName name))"
    and "\<not> quota_exceeded e Key_user_files"
  shows "saveUserJson e name d None s =
           (True, s\<lparr>user_json := (user_json s)(getFileName name \<mapsto> d),
                    user_files := Some (AList.update name (getFileName name) (get_user_files s))\<rparr>)"
  using assms
  by (simp add: saveUserJson_def rename_step_def setItem_user_json_def setItem_user_files_def
      get_user_files_def Let_def)

lemma saveUserDataDual_user_files:
  assumes "valid_payload u"
  shows "user_files (snd (saveUserDataDual e u on oi s)) =
         user_files (snd (saveUserJson e (the (fullName_of u))
                     (mk_jsonData (the (fullName_of u)) (the (email_of u)) u) on s))"
  by (simp add: saveUserDataDual_valid [OF assms])

lemma readCSV_quota:
  "quota_exceeded e Key_csv_users \<Longrightarrow> readCSV e n s = (get_csv_users s, s)"
  by (simp add: readCSV_def setItem_csv_users_def Let_def split: option.splits)

lemma sync_csv_quota:
  assumes "quota_exceeded e Key_csv_users"
  shows "csv_users (snd (sync_csv e b em r oi s)) = csv_users s"
  using assms
  by (simp add: sync_csv_def findUserByEmail_def updateCSVRow_def readCSV_quota
      setItem_csv_users_def Let_def split: option.splits)

lemma saveUserJson_again:
  assumes "user_json s (getFileName name) = Some d"
    and "user_files s = Some fs" and "map_of fs name = Some (getFileName name)"
  shows "user_json (snd (saveUserJson e name d None s)) = user_json s"
    and "user_files (snd (saveUserJson e name d None s)) = user_files s"
proof -
  have j: "(user_json s)(getFileName name \<mapsto> d) = user_json s"
    using assms(1) by (rule fun_upd_idem)
  have f: "AList.update name (getFileName name) fs = fs"
    using assms(3) by (rule update_triv)
  show "user_json (snd (saveUserJson e name d None s)) = user_json s"
    by (cases "quota_exceeded e (Key_user_json (getFileName name))";
        cases "quota_exceeded e Key_user_files")
       (simp_all add: saveUserJson_def rename_step_def setItem_user_json_def setItem_user_files_def
          Let_def j)
  show "user_files (snd (saveUserJson e name d None s)) = user_files s"
    using assms(2)
    by (cases "quota_exceeded e (Key_user_json (getFileName name))";
        cases "quota_exceeded e Key_user_files")
       (simp_all add: saveUserJson_def rename_step_def setItem_user_json_def setItem_user_files_def
          get_user_files_def Let_def f)
qed

lemma detail_store_again:
  assumes "valid_payload u" and "\<forall>k. \<not> quota_exceeded e1 k"
  shows "user_json (snd (saveUserDataDual e2 u None None (snd (saveUserDataDual e1 u None None s)))) =
         user_json (snd (saveUserDataDual e1 u None None s))"
    and "user_files (snd (saveUserDataDual e2 u None None (snd (saveUserDataDual e1 u None None s)))) =
         user_files (snd (saveUserDataDual e1 u None None s))"
proof -
  define name where "name = the (fullName_of u)"
  define d where "d = mk_jsonData name (the (email_of u)) u"
  define s1 where "s1 = snd (saveUserDataDual e1 u None None s)"
  have j1: "user_json s1 = (user_json s)(getFileName name \<mapsto> d)"
    and f1: "user_files s1 = Some (AList.update name (getFileName name) (get_user_files s))"
    using assms
    by (simp_all add: s1_def name_def d_def saveUserDataDual_user_json saveUserDataDual_user_files
        saveUserJson_plain)
  have a: "user_json s1 (getFileName name) = Some d" by (simp add: j1)
  have b: "map_of (AList.update name (getFileName name) (get_user_files s)) name =
           Some (getFileName name)"
    by (simp add: update_conv')
  show "user_json (snd (saveUserDataDual e2 u None None (snd (saveUserDataDual e1 u None None s)))) =
         user_json (snd (saveUserDataDual e1 u None None s))"
    using saveUserJson_again(1) [OF a f1 b, of e2] assms(1)
    by (simp add: saveUserDataDual_user_json s1_def name_def d_def)
  show "user_files (snd (saveUserDataDual e2 u None None (snd (saveUserDataDual e1 u None None s)))) =
         user_files (snd (saveUserDataDual e1 u None None s))"
    using saveUserJson_again(2) [OF a f1 b, of e2] assms(1)
    by (simp add: saveUserDataDual_user_files s1_def name_def d_def)
qed

lemma saveUserJson_csv_users [simp]:
  "csv_users (snd (saveUserJson e name d on s)) = csv_users s"
  by (cases "rename_step e name on s";
      cases "quota_exceeded e (Key_user_json (getFileName name))";
      cases "quota_exceeded e Key_user_files")
     (auto simp add: saveUserJson_def rename_step_def setItem_user_json_def setItem_user_files_def
        Let_def split: option.splits if_splits)

lemma summary_row_again:
  assumes "valid_payload u"
    and "List.find (email_matches (the (email_of u))) (get_csv_users s) =
           Some (mk_csvData (the (fullName_of u)) (the (email_of u)) u)"
  shows "List.find (email_matches (the (email_of u)))
           (get_csv_users (snd (saveUserDataDual e u on oi s))) =
         Some (mk_csvData (the (fullName_of u)) (the (email_of u)) u)"
proof (cases "quota_exceeded e Key_csv_users")
  case True
  then have "get_csv_users (snd (saveUserDataDual e u on oi s)) = get_csv_users s"
    by (simp add: saveUserDataDual_valid [OF assms(1)] sync_csv_quota get_csv_users_def)
  then show ?thesis using assms(2) by simp
next
  case False
  then show ?thesis by (rule saveUserDataDual_row [OF assms(1)])
qed

subsection \<open>Evaluation of the concrete inputs\<close>

lemmas model_eval =
  saveUserDataDual_def valid_payload_def fullName_of_def email_of_def mk_csvData_def
  sync_csv_def findUserByEmail_def updateCSVRow_def readCSV_def merge_users_def merge_step_def
  normalize_users_def normalize_user_def getRandomAvatarFile_def avatarCatalog_def
  toLowerCase_def lower_char_def upper_letters_def lower_letters_def
  setItem_csv_users_def setItem_user_json_def setItem_user_files_def setItem_deleted_images_def
  saveUserJson_def rename_step_def deleteOldImage_def image_changed_def overwrite_row_def
  csv_fields_def get_csv_users_def get_user_files_def get_deleted_images_def empty_storage_def
  email_matches_def lower_eq_def email_field_def email_address_field_def fld_def
  payload_def blank_payload_def Let_def split_beta

lemma parse_current_csv:
  "parseCSV current_csv =
     [[(''full_name'', ''Ada Lovelace''), (''email_address'', ''ada@x.test''),
       (''password'', ''secret1'')]]"
  by (simp add: parseCSV_def current_csv_def trim_def is_space_def build_user_def value_at_def
      email_field_def email_address_field_def fld_def)

lemma parse_legacy_csv:
  "parseCSV legacy_csv =
     [[(''name'', ''Ann Lee''), (''email'', ''ann@x.test''), (''password'', ''secret1'')]]"
  by (simp add: parseCSV_def legacy_csv_def trim_def is_space_def build_user_def value_at_def
      email_field_def email_address_field_def fld_def)

lemma bob_signed_up_rows:
  "get_csv_users bob_signed_up =
     [[(''full_name'', ''Ada Lovelace''), (''email_address'', ''ada@x.test''),
       (''password'', ''secret1''), (''avatar'', ''01_female_2001.jpg.jpg'')],
      [(''full_name'', ''Bob''), (''email_address'', ''bob@x.test''), (''password'', []),
       (''gender'', []), (''country'', []), (''year'', []), (''profile_picture'', []),
       (''recommendations_selected'', []), (''bio'', [])]]"
  by (simp add: bob_signed_up_def model_eval env_current_def parse_current_csv)

lemma bob_carol_signed_up_rows:
  "get_csv_users bob_carol_signed_up =
     [[(''name'', ''Ann Lee''), (''email'', ''ann@x.test''), (''password'', ''secret1''),
       (''avatar'', ''01_female_2001.jpg.jpg'')],
      [(''full_name'', ''Bob''), (''email_address'', ''bob@x.test''), (''password'', []),
       (''gender'', []), (''country'', []), (''year'', []), (''profile_picture'', []),
       (''recommendations_selected'', []), (''bio'', []),
       (''avatar'', ''01_female_2001.jpg.jpg'')],
      [(''full_name'', ''Carol''), (''email_address'', ''carol@x.test''), (''password'', []),
       (''gender'', []), (''country'', []), (''year'', []), (''profile_picture'', []),
       (''recommendations_selected'', []), (''bio'', [])]]"
  by (simp add: bob_carol_signed_up_def model_eval env_legacy_def parse_legacy_csv)

lemma bob_carol_read:
  "fst (readCSV env_legacy 0 bob_carol_signed_up) =
     [[(''name'', ''Ann Lee''), (''email'', ''ann@x.test''), (''password'', ''secret1''),
       (''avatar'', ''01_female_2001.jpg.jpg'')],
      [(''full_name'', ''Bob''), (''email_address'', ''bob@x.test''), (''password'', []),
       (''gender'', []), (''country'', []), (''year'', []), (''profile_picture'', []),
       (''recommendations_selected'', []), (''bio'', []),
       (''avatar'', ''01_female_2001.jpg.jpg'')]]"
  using bob_carol_signed_up_rows
  by (simp add: readCSV_def env_legacy_def parse_legacy_csv merge_users_def merge_step_def
      normalize_users_def normalize_user_def getRandomAvatarFile_def avatarCatalog_def
      toLowerCase_def lower_char_def upper_letters_def lower_letters_def setItem_csv_users_def
      email_field_def fld_def Let_def)

lemma ann_saved_once_rows:
  "csv_users ann_saved_once =
     Some [[(''full_name'', ''Ann Lee''), (''email_address'', ''ann@x.test''), (''password'', []),
       (''gender'', []), (''country'', []), (''year'', []), (''profile_picture'', []),
       (''recommendations_selected'', []), (''bio'', [])]]"
  by (simp add: ann_saved_once_def model_eval env_legacy_def parse_legacy_csv)

lemma ann_saved_twice_rows:
  "csv_users ann_saved_twice =
     Some [[(''full_name'', ''Ann Lee''), (''email_address'', ''ann@x.test''), (''password'', []),
       (''gender'', []), (''country'', []), (''year'', []), (''profile_picture'', []),
       (''recommendations_selected'', []), (''bio'', [])],
      [(''full_name'', ''Ann Lee''), (''email_address'', ''ann@x.test''), (''password'', []),
       (''gender'', []), (''country'', []), (''year'', []), (''profile_picture'', []),
       (''recommendations_selected'', []), (''bio'', []),
       (''avatar'', ''01_female_2001.jpg.jpg'')]]"
proof -
  have "csv_users (snd (saveUserDataDual env_legacy (payload ''Ann Lee'' ''ann@x.test'') None None s)) =
        csv_users (snd (sync_csv env_legacy True ''ann@x.test''
           (mk_csvData ''Ann Lee'' ''ann@x.test'' (payload ''Ann Lee'' ''ann@x.test'')) None
           (s\<lparr>user_json := (user_json s)(getFileName ''Ann Lee'' \<mapsto>
                  mk_jsonData ''Ann Lee'' ''ann@x.test'' (payload ''Ann Lee'' ''ann@x.test'')),
               user_files := Some (AList.update ''Ann Lee'' (getFileName ''Ann Lee'') (get_user_files s))\<rparr>)))"
    for s
    by (simp add: saveUserDataDual_def valid_payload_def fullName_of_def email_of_def payload_def
        blank_payload_def saveUserJson_plain env_legacy_def Let_def split_beta)
  then show ?thesis
    unfolding ann_saved_twice_def
    by (simp add: ann_saved_once_rows sync_csv_def findUserByEmail_def updateCSVRow_def readCSV_def
      merge_users_def merge_step_def normalize_users_def normalize_user_def getRandomAvatarFile_def
      avatarCatalog_def toLowerCase_def lower_char_def upper_letters_def lower_letters_def
      setItem_csv_users_def image_changed_def overwrite_row_def mk_csvData_def
      csv_fields_def get_csv_users_def email_matches_def lower_eq_def email_field_def
      email_address_field_def fld_def payload_def blank_payload_def Let_def split_beta
      env_legacy_def parse_legacy_csv)
qed

lemmas payload_eval =
  valid_payload_def fullName_of_def email_of_def payload_def blank_payload_def legacy_payload_def
  python_payload_def cleared_payload_def

lemmas lookup_eval =
  email_matches_def lower_eq_def email_field_def email_address_field_def fld_def toLowerCase_def
  lower_char_def upper_letters_def lower_letters_def

section \<open>The claims\<close>

text \<open>
  C1. Claim: when the baseline loads, \<^verbatim>\<open>readCSV\<close> returns the baseline rows followed by
  every locally stored row whose email is not in the baseline; no local row is lost.
  The code breaks this: the merge compares the field \<^verbatim>\<open>email\<close> only, which the rows
  written by \<^verbatim>\<open>saveUserDataDual\<close> do not have. After Bob signs up over the current
  baseline, his row is in the local store and his email is not in the baseline, yet the
  next read returns the baseline row alone and overwrites the local store with it. Over
  the legacy baseline the first such row survives and the second is dropped: after Bob and
  Carol sign up, the next read returns no row for Carol.
\<close>

theorem readCSV_drops_signup:
  "fst (saveUserDataDual env_current (payload ''Bob'' ''bob@x.test'') None None empty_storage) \<and>
   List.find (email_matches ''bob@x.test'') (get_csv_users bob_signed_up) =
     Some (mk_csvData ''Bob'' ''bob@x.test'' (payload ''Bob'' ''bob@x.test'')) \<and>
   List.find (email_matches ''bob@x.test'') (parseCSV current_csv) = None \<and>
   List.find (email_matches ''bob@x.test'') (fst (readCSV env_current 0 bob_signed_up)) = None \<and>
   get_csv_users (snd (readCSV env_current 0 bob_signed_up)) =
     [[(''full_name'', ''Ada Lovelace''), (''email_address'', ''ada@x.test''),
       (''password'', ''secret1''), (''avatar'', ''01_female_2001.jpg.jpg'')]] \<and>
   List.find (email_matches ''carol@x.test'') (get_csv_users bob_carol_signed_up) =
     Some (mk_csvData ''Carol'' ''carol@x.test'' (payload ''Carol'' ''carol@x.test'')) \<and>
   List.find (email_matches ''carol@x.test'') (parseCSV legacy_csv) = None \<and>
   List.find (email_matches ''carol@x.test'') (fst (readCSV env_legacy 0 bob_carol_signed_up)) = None"
proof -
  have "fst (saveUserDataDual env_current (payload ''Bob'' ''bob@x.test'') None None empty_storage)"
    by (rule saveUserDataDual_ok)
       (simp_all add: valid_payload_def fullName_of_def email_of_def payload_def blank_payload_def
          env_current_def)
  moreover have "List.find (email_matches ''bob@x.test'') (get_csv_users bob_signed_up) =
     Some (mk_csvData ''Bob'' ''bob@x.test'' (payload ''Bob'' ''bob@x.test''))"
    by (simp add: bob_signed_up_rows mk_csvData_def payload_def blank_payload_def lookup_eval)
  moreover have "List.find (email_matches ''bob@x.test'') (parseCSV current_csv) = None"
    by (simp add: parse_current_csv lookup_eval)
  moreover have "readCSV env_current 0 bob_signed_up =
      ([[(''full_name'', ''Ada Lovelace''), (''email_address'', ''ada@x.test''),
         (''password'', ''secret1''), (''avatar'', ''01_female_2001.jpg.jpg'')]],
       bob_signed_up\<lparr>csv_users :=
         Some [[(''full_name'', ''Ada Lovelace''), (''email_address'', ''ada@x.test''),
                (''password'', ''secret1''), (''avatar'', ''01_female_2001.jpg.jpg'')]]\<rparr>)"
    using bob_signed_up_rows
    by (simp add: readCSV_def env_current_def parse_current_csv merge_users_def merge_step_def
        normalize_users_def normalize_user_def getRandomAvatarFile_def avatarCatalog_def
        toLowerCase_def lower_char_def upper_letters_def lower_letters_def setItem_csv_users_def
        email_field_def fld_def Let_def)
  moreover have "List.find (email_matches ''carol@x.test'') (get_csv_users bob_carol_signed_up) =
     Some (mk_csvData ''Carol'' ''carol@x.test'' (payload ''Carol'' ''carol@x.test''))"
    by (simp add: bob_carol_signed_up_rows mk_csvData_def payload_def blank_payload_def lookup_eval)
  moreover have "List.find (email_matches ''carol@x.test'') (parseCSV legacy_csv) = None"
    by (simp add: parse_legacy_csv lookup_eval)
  moreover have
    "List.find (email_matches ''carol@x.test'') (fst (readCSV env_legacy 0 bob_carol_signed_up)) = None"
    by (simp add: bob_carol_read lookup_eval)
  ultimately show ?thesis
    by (simp add: get_csv_users_def lookup_eval)
qed

text \<open>
  C2. Claim: the summary store never holds two rows with the same case-insensitive
  \<^verbatim>\<open>email_address\<close>. The code breaks this without any signup: Ann is a row of the legacy
  baseline; after she saves her profile twice, the item \<^verbatim>\<open>csv_users\<close> holds two rows
  whose \<^verbatim>\<open>email_address\<close> is hers, and the next read returns two rows that
  \<^verbatim>\<open>findUserByEmail\<close> matches with her email. The cause is the merge of C1.
\<close>

theorem profile_saves_duplicate_email:
  "fst (saveUserDataDual env_legacy (payload ''Ann Lee'' ''ann@x.test'') None None empty_storage) \<and>
   fst (saveUserDataDual env_legacy (payload ''Ann Lee'' ''ann@x.test'') None None ann_saved_once) \<and>
   map email_address_field (get_csv_users ann_saved_twice) =
     [Some ''ann@x.test'', Some ''ann@x.test''] \<and>
   length (filter (email_matches ''ann@x.test'') (fst (readCSV env_legacy 0 ann_saved_twice))) = 2"
proof -
  have v: "valid_payload (payload ''Ann Lee'' ''ann@x.test'')"
    by (simp add: valid_payload_def fullName_of_def email_of_def payload_def blank_payload_def)
  have q: "\<forall>k. \<not> quota_exceeded env_legacy k" by (simp add: env_legacy_def)
  have "length (filter (email_matches ''ann@x.test'') (fst (readCSV env_legacy 0 ann_saved_twice))) = 2"
    by (simp add: readCSV_def env_legacy_def parse_legacy_csv get_csv_users_def ann_saved_twice_rows
        merge_users_def merge_step_def normalize_users_def normalize_user_def
        getRandomAvatarFile_def avatarCatalog_def toLowerCase_def lower_char_def upper_letters_def
        lower_letters_def setItem_csv_users_def email_matches_def lower_eq_def email_field_def
        email_address_field_def fld_def Let_def)
  moreover have "map email_address_field (get_csv_users ann_saved_twice) =
     [Some ''ann@x.test'', Some ''ann@x.test'']"
    by (simp add: get_csv_users_def ann_saved_twice_rows email_address_field_def fld_def)
  ultimately show ?thesis
    using saveUserDataDual_ok [OF v q] by simp
qed

text \<open>
  C3. Claim: for every valid payload and every \<open>oldName\<close> different from its name, the call
  with \<open>previousName = oldName\<close> leaves \<open>load(oldName) = null\<close> and \<open>load(newName)\<close> the
  payload, and the summary row found by email changes in its \<open>full_name\<close> only.
  This fails when the two names derive the same key (see the counterexample). Amended:
  for every valid payload and every non-empty \<open>oldName\<close> whose key differs from the key of
  the payload's name, when no write fails, the call returns \<open>true\<close>, \<open>load(oldName)\<close> is
  \<open>null\<close>, \<open>load(newName)\<close> is the detail record built from the payload, and the first
  row of the stored item \<^verbatim>\<open>csv_users\<close> matching the email is the flattened payload: its
  \<open>full_name\<close> is the new name, its \<open>email_address\<close> the payload's email, and its other
  fields do not depend on the name.
\<close>

theorem rename_moves_detail_record:
  assumes "fullName_of u = Some name" and "name \<noteq> []"
    and "email_of u = Some email" and "email \<noteq> []"
    and "old \<noteq> []" and "getFileName old \<noteq> getFileName name"
    and "\<forall>k. \<not> quota_exceeded e k"
    and "s' = snd (saveUserDataDual e u (Some old) oldImagePath s)"
  shows "fst (saveUserDataDual e u (Some old) oldImagePath s) \<and>
         loadUserJson old s' = None \<and>
         loadUserJson name s' = Some (mk_jsonData name email u) \<and>
         List.find (email_matches email) (get_csv_users s') = Some (mk_csvData name email u) \<and>
         fld (mk_csvData name email u) ''full_name'' = Some name \<and>
         fld (mk_csvData name email u) ''email_address'' = Some email \<and>
         (\<forall>k. k \<noteq> ''full_name'' \<longrightarrow>
              fld (mk_csvData name email u) k = fld (mk_csvData old email u) k)"
proof -
  have v: "valid_payload u" using assms(1-4) by (rule valid_payloadI)
  have q: "\<not> quota_exceeded e (Key_user_json (getFileName name))" "\<not> quota_exceeded e Key_user_files"
    "\<not> quota_exceeded e Key_csv_users"
    using assms(7) by simp_all
  have "fst (saveUserDataDual e u (Some old) oldImagePath s)"
    using v assms(7) by (rule saveUserDataDual_ok)
  moreover have "old \<noteq> name" using assms(6) by auto
  then have "loadUserJson old s' = None"
    using assms(1,3,5,6,8)
    by (simp add: loadUserJson_def saveUserDataDual_user_json [OF v] saveUserJson_other_key)
  moreover have "loadUserJson name s' = Some (mk_jsonData name email u)"
    using saveUserDataDual_detail [OF v, of e "Some old" oldImagePath s] q assms(1,3,8) by simp
  moreover have "List.find (email_matches email) (get_csv_users s') = Some (mk_csvData name email u)"
    using saveUserDataDual_row [OF v q(3), of "Some old" oldImagePath s] assms(1,3,8) by simp
  moreover have "fld (mk_csvData name email u) ''full_name'' = Some name"
    and "fld (mk_csvData name email u) ''email_address'' = Some email"
    and "\<forall>k. k \<noteq> ''full_name'' \<longrightarrow> fld (mk_csvData name email u) k = fld (mk_csvData old email u) k"
    by (simp_all add: mk_csvData_def fld_def)
  ultimately show ?thesis by blast
qed

theorem rename_moves_detail_record_witness:
  "loadUserJson ''Ann Lee'' python_storage \<noteq> None \<and>
   getFileName ''Ann Lee'' \<noteq> getFileName ''Ann Smith'' \<and>
   fst (saveUserDataDual env_offline (payload ''Ann Smith'' ''ann@x.test'') (Some ''Ann Lee'') None
          python_storage) \<and>
   loadUserJson ''Ann Lee''
     (snd (saveUserDataDual env_offline (payload ''Ann Smith'' ''ann@x.test'') (Some ''Ann Lee'') None
          python_storage)) = None \<and>
   loadUserJson ''Ann Smith''
     (snd (saveUserDataDual env_offline (payload ''Ann Smith'' ''ann@x.test'') (Some ''Ann Lee'') None
          python_storage)) =
     Some (mk_jsonData ''Ann Smith'' ''ann@x.test'' (payload ''Ann Smith'' ''ann@x.test'')) \<and>
   List.find (email_matches ''ann@x.test'')
     (get_csv_users
       (snd (saveUserDataDual env_offline (payload ''Ann Smith'' ''ann@x.test'') (Some ''Ann Lee'') None
          python_storage))) =
     Some (mk_csvData ''Ann Smith'' ''ann@x.test'' (payload ''Ann Smith'' ''ann@x.test''))"
proof -
  have v: "valid_payload python_payload" by (simp add: payload_eval)
  have "loadUserJson ''Ann Lee'' python_storage \<noteq> None"
    using saveUserDataDual_detail [OF v, of env_offline None None empty_storage]
    by (simp add: python_storage_def payload_eval env_offline_def)
  moreover have k: "getFileName ''Ann Lee'' \<noteq> getFileName ''Ann Smith''"
    by (simp add: string_eval)
  ultimately show ?thesis
    using rename_moves_detail_record [of "payload ''Ann Smith'' ''ann@x.test''" "''Ann Smith''"
        "''ann@x.test''" "''Ann Lee''" env_offline _ None python_storage, OF _ _ _ _ _ _ _ refl] k
    by (simp add: payload_eval env_offline_def)
qed

text \<open>
  The counterexample to C3 as stated: \<open>ann lee\<close> and \<open>Ann Lee\<close> are different names with the
  same key, and after the rename \<open>load\<close> of the old name is not \<open>null\<close>.
\<close>

theorem rename_same_key_counterexample:
  "valid_payload (payload ''Ann Lee'' ''ann@x.test'') \<and> ''ann lee'' \<noteq> ''Ann Lee'' \<and>
   fst (saveUserDataDual env_offline (payload ''Ann Lee'' ''ann@x.test'') (Some ''ann lee'') None
          empty_storage) \<and>
   loadUserJson ''ann lee''
     (snd (saveUserDataDual env_offline (payload ''Ann Lee'' ''ann@x.test'') (Some ''ann lee'') None
          empty_storage)) =
     Some (mk_jsonData ''Ann Lee'' ''ann@x.test'' (payload ''Ann Lee'' ''ann@x.test''))"
proof -
  have v: "valid_payload (payload ''Ann Lee'' ''ann@x.test'')" by (simp add: payload_eval)
  have k: "getFileName ''ann lee'' = getFileName ''Ann Lee''" by (simp add: string_eval)
  show ?thesis
    using saveUserDataDual_detail [OF v, of env_offline "Some ''ann lee''" None empty_storage]
      saveUserDataDual_ok [OF v, of env_offline "Some ''ann lee''" None empty_storage] v
    by (simp add: loadUserJson_def k payload_eval env_offline_def)
qed

text \<open>
  C4. Claim: the storage key is the name lowercased, with the characters outside
  \<^verbatim>\<open>[a-zA-Z0-9]\<close> stripped and white space collapsed; two distinct names with the same key
  collide onto one stored record. The code does not strip (see the counterexample).
  Amended: the key is a function of the name alone, the name with every character outside
  \<^verbatim>\<open>[a-zA-Z0-9]\<close> replaced by an underscore and every letter lowercased (the white-space
  step finds nothing left to replace); the key has the length of the name; and a record
  saved under one name is what \<open>load\<close> returns for every name with the same key.
\<close>

theorem getFileName_replaces:
  "getFileName name = map (\<lambda>c. if is_alnum c then lower_char c else CHR ''_'') name \<and>
   length (getFileName name) = length name \<and>
   (getFileName n1 = getFileName n2 \<longrightarrow>
      fst (saveUserJson e n1 d None s) \<longrightarrow>
      loadUserJson n2 (snd (saveUserJson e n1 d None s)) = Some d)"
proof -
  have "getFileName name = map (\<lambda>c. if is_alnum c then lower_char c else CHR ''_'') name"
    by (rule getFileName_map)
  moreover have "length (getFileName name) = length name"
    by (simp add: getFileName_map)
  moreover have "loadUserJson n2 (snd (saveUserJson e n1 d None s)) = Some d"
    if "getFileName n1 = getFileName n2" and "fst (saveUserJson e n1 d None s)"
    using saveUserJson_stored [OF that(2)] that(1) by (simp add: loadUserJson_def)
  ultimately show ?thesis by blast
qed

theorem getFileName_replaces_witness:
  "''Ann Lee'' \<noteq> ''ann-lee'' \<and> getFileName ''Ann Lee'' = ''ann_lee'' \<and>
   getFileName ''ann-lee'' = ''ann_lee'' \<and>
   fst (saveUserJson env_offline ''Ann Lee''
          (mk_jsonData ''Ann Lee'' ''ann@x.test'' python_payload) None empty_storage) \<and>
   loadUserJson ''ann-lee''
     (snd (saveUserJson env_offline ''Ann Lee''
             (mk_jsonData ''Ann Lee'' ''ann@x.test'' python_payload) None empty_storage)) =
     Some (mk_jsonData ''Ann Lee'' ''ann@x.test'' python_payload)"
proof -
  have k: "getFileName ''Ann Lee'' = ''ann_lee''" "getFileName ''ann-lee'' = ''ann_lee''"
    by (simp_all add: string_eval)
  have ok: "fst (saveUserJson env_offline ''Ann Lee''
          (mk_jsonData ''Ann Lee'' ''ann@x.test'' python_payload) None empty_storage)"
    by (rule saveUserJson_ok) (simp_all add: env_offline_def)
  note collide = conjunct2 [OF conjunct2 [OF getFileName_replaces [of _ "''Ann Lee''" "''ann-lee''"
        env_offline "mk_jsonData ''Ann Lee'' ''ann@x.test'' python_payload" empty_storage]]]
  show ?thesis
    using collide k ok by simp
qed

text \<open>
  The counterexample to C4 as stated: the code's key of \<open>Ada Lovelace\<close> keeps an underscore
  where the specification's wording strips the space.
\<close>

theorem getFileName_strip_counterexample:
  "getFileName ''Ada Lovelace'' = ''ada_lovelace'' \<and> spec_key ''Ada Lovelace'' = ''adalovelace'' \<and>
   getFileName ''Ada Lovelace'' \<noteq> spec_key ''Ada Lovelace''"
  by (simp add: spec_key_def string_eval)

text \<open>
  C5. Claim: a payload whose \<open>full_name\<close> is empty or absent, or whose \<open>email_address\<close> is
  empty or absent, makes \<^verbatim>\<open>saveUserDataDual\<close> return \<open>false\<close> and write nothing.
  The code falls back to the legacy fields \<open>name\<close> and \<open>email\<close> (see the counterexample).
  Amended: when \<open>full_name\<close> and \<open>name\<close> are both empty or absent, or \<open>email_address\<close> and
  \<open>email\<close> are both empty or absent, the call returns \<open>false\<close> and the storage is unchanged.
\<close>

theorem missing_fields_fail_fast:
  assumes "(\<not> truthy (ud_full_name u) \<and> \<not> truthy (ud_name u)) \<or>
           (\<not> truthy (ud_email_address u) \<and> \<not> truthy (ud_email u))"
  shows "saveUserDataDual e u oldName oldImagePath s = (False, s)"
proof -
  have "\<not> valid_payload u"
    using assms by (auto simp: valid_payload_def fullName_of_def email_of_def)
  then show ?thesis by (rule saveUserDataDual_invalid)
qed

theorem missing_fields_fail_fast_witness:
  "\<not> truthy (ud_full_name blank_payload) \<and> \<not> truthy (ud_name blank_payload) \<and>
   saveUserDataDual env_offline blank_payload None None python_storage = (False, python_storage)"
  using missing_fields_fail_fast [of blank_payload env_offline None None python_storage]
  by (simp add: blank_payload_def)

text \<open>
  The counterexample to C5 as stated: a payload without \<open>full_name\<close> and \<open>email_address\<close>
  but with the legacy fields is accepted, and its detail record is written.
\<close>

theorem legacy_fields_counterexample:
  "\<not> truthy (ud_full_name legacy_payload) \<and> \<not> truthy (ud_email_address legacy_payload) \<and>
   fst (saveUserDataDual env_offline legacy_payload None None empty_storage) \<and>
   loadUserJson ''Ada'' (snd (saveUserDataDual env_offline legacy_payload None None empty_storage)) =
     Some (mk_jsonData ''Ada'' ''ada@x.test'' legacy_payload) \<and>
   loadUserJson ''Ada'' empty_storage = None"
proof -
  have v: "valid_payload legacy_payload" by (simp add: payload_eval)
  show ?thesis
    using saveUserDataDual_detail [OF v, of env_offline None None empty_storage]
      saveUserDataDual_ok [OF v, of env_offline None None empty_storage]
    by (simp add: payload_eval env_offline_def loadUserJson_def empty_storage_def)
qed

text \<open>
  C6. Full-overwrite idempotence: for every valid payload, two calls in succession with
  the same payload, no name change and no change of the resource path leave, after the
  second, the detail record and the summary row that the first left. The first call is
  one in which no write fails, so that it leaves a detail record and a summary row; the
  second call runs in any environment (baseline, random avatars, failing writes). The
  stored values are compared, which decides the serialized form. The detail store is the
  same as a whole; the summary row is the first row of the stored item \<^verbatim>\<open>csv_users\<close>
  that matches the payload's email. The other rows of that item may differ between the
  two stores (avatars are drawn again, and C2 shows a second row for the email).
\<close>

theorem sync_twice_identical:
  assumes "fullName_of u = Some name" and "name \<noteq> []"
    and "email_of u = Some email" and "email \<noteq> []"
    and "\<forall>k. \<not> quota_exceeded e1 k"
    and "s1 = snd (saveUserDataDual e1 u None None s0)"
    and "s2 = snd (saveUserDataDual e2 u None None s1)"
  shows "fst (saveUserDataDual e1 u None None s0) \<and>
         user_json s2 = user_json s1 \<and> user_files s2 = user_files s1 \<and>
         loadUserJson name s2 = loadUserJson name s1 \<and>
         loadUserJson name s1 = Some (mk_jsonData name email u) \<and>
         List.find (email_matches email) (get_csv_users s2) =
           List.find (email_matches email) (get_csv_users s1) \<and>
         List.find (email_matches email) (get_csv_users s1) = Some (mk_csvData name email u)"
proof -
  have v: "valid_payload u" using assms(1-4) by (rule valid_payloadI)
  have q1: "\<not> quota_exceeded e1 (Key_user_json (getFileName name))"
    "\<not> quota_exceeded e1 Key_user_files" "\<not> quota_exceeded e1 Key_csv_users"
    using assms(5) by simp_all
  have ok: "fst (saveUserDataDual e1 u None None s0)"
    using v assms(5) by (rule saveUserDataDual_ok)
  have detail: "user_json s2 = user_json s1" "user_files s2 = user_files s1"
    unfolding assms(6,7) using v assms(5) by (rule detail_store_again)+
  have load1: "loadUserJson name s1 = Some (mk_jsonData name email u)"
    using saveUserDataDual_detail [OF v, of e1 None None s0] q1 assms(1,3,6) by simp
  have row1: "List.find (email_matches email) (get_csv_users s1) = Some (mk_csvData name email u)"
    using saveUserDataDual_row [OF v q1(3), of None None s0] assms(1,3,6) by simp
  have row2: "List.find (email_matches email) (get_csv_users s2) = Some (mk_csvData name email u)"
    using summary_row_again [OF v, of s1 e2 None None] row1 assms(1,3,7) by simp
  show ?thesis
    using ok detail load1 row1 row2 by (simp add: loadUserJson_def)
qed

theorem sync_twice_identical_witness:
  "fst (saveUserDataDual env_legacy (payload ''Ann Lee'' ''ann@x.test'') None None empty_storage) \<and>
   user_json ann_saved_twice = user_json ann_saved_once \<and>
   user_files ann_saved_twice = user_files ann_saved_once \<and>
   loadUserJson ''Ann Lee'' ann_saved_twice =
     Some (mk_jsonData ''Ann Lee'' ''ann@x.test'' (payload ''Ann Lee'' ''ann@x.test'')) \<and>
   List.find (email_matches ''ann@x.test'') (get_csv_users ann_saved_twice) =
     Some (mk_csvData ''Ann Lee'' ''ann@x.test'' (payload ''Ann Lee'' ''ann@x.test'')) \<and>
   List.find (email_matches ''ann@x.test'') (get_csv_users ann_saved_once) =
     Some (mk_csvData ''Ann Lee'' ''ann@x.test'' (payload ''Ann Lee'' ''ann@x.test''))"
  using sync_twice_identical [of "payload ''Ann Lee'' ''ann@x.test''" "''Ann Lee''" "''ann@x.test''"
      env_legacy ann_saved_once empty_storage ann_saved_twice env_legacy]
  by (simp add: payload_eval env_legacy_def ann_saved_once_def ann_saved_twice_def)

text \<open>
  C7. Partial-field clearing: for every valid payload whose \<open>interests\<close> (or \<open>skills\<close>) is the
  empty list, the detail record that \<^verbatim>\<open>saveUserDataDual\<close> stores has the empty list in
  that field, whatever was stored before. The detail record is stored when the two writes
  of \<^verbatim>\<open>saveUserJson\<close> do not fail.
\<close>

theorem empty_list_clears_field:
  assumes "fullName_of u = Some name" and "name \<noteq> []"
    and "email_of u = Some email" and "email \<noteq> []"
    and "\<not> quota_exceeded e (Key_user_json (getFileName name))"
    and "\<not> quota_exceeded e Key_user_files"
    and "s' = snd (saveUserDataDual e u oldName oldImagePath s)"
  shows "(ud_interests u = Some [] \<longrightarrow> map_option interests (loadUserJson name s') = Some []) \<and>
         (ud_skills u = Some [] \<longrightarrow> map_option skills (loadUserJson name s') = Some [])"
proof -
  have v: "valid_payload u" using assms(1-4) by (rule valid_payloadI)
  have "loadUserJson name s' = Some (mk_jsonData name email u)"
    using saveUserDataDual_detail [OF v, of e oldName oldImagePath s] assms(1,3,5,6,7) by simp
  then show ?thesis by (simp add: mk_jsonData_def)
qed

theorem empty_list_clears_field_witness:
  "map_option skills (loadUserJson ''Ann Lee'' python_storage) = Some [''Python''] \<and>
   map_option skills (loadUserJson ''Ann Lee''
      (snd (saveUserDataDual env_offline cleared_payload None None python_storage))) = Some [] \<and>
   map_option interests (loadUserJson ''Ann Lee''
      (snd (saveUserDataDual env_offline cleared_payload None None python_storage))) = Some []"
proof -
  have v: "valid_payload python_payload" by (simp add: payload_eval)
  have "map_option skills (loadUserJson ''Ann Lee'' python_storage) = Some [''Python'']"
    using saveUserDataDual_detail [OF v, of env_offline None None empty_storage]
    by (simp add: python_storage_def payload_eval env_offline_def mk_jsonData_def)
  then show ?thesis
    using empty_list_clears_field [of cleared_payload "''Ann Lee''" "''ann@x.test''" env_offline
        _ None None python_storage, OF _ _ _ _ _ _ refl]
    by (simp add: payload_eval env_offline_def)
qed

text \<open>
  C8. Claim: \<^verbatim>\<open>saveUserDataDual\<close> returns \<open>true\<close> exactly when the detail-record write
  succeeded; a failure of the summary half never changes the result. The append branch
  contradicts this (see the counterexample). Amended: for every valid payload the result is
  \<open>true\<close> exactly when \<^verbatim>\<open>saveUserJson\<close> returned \<open>true\<close> and, in addition, either a summary
  row matching the email was found or the write of \<^verbatim>\<open>csv_users\<close> does not throw. So
  \<open>true\<close> is returned only if the detail write succeeded, and when a row is found the result
  is the detail result, whatever happens to the summary overwrite.
\<close>

theorem dual_write_result:
  assumes "fullName_of u = Some name" and "name \<noteq> []"
    and "email_of u = Some email" and "email \<noteq> []"
    and "jsonSaved = fst (saveUserJson e name (mk_jsonData name email u) oldName s)"
    and "s1 = snd (saveUserJson e name (mk_jsonData name email u) oldName s)"
  shows "fst (saveUserDataDual e u oldName oldImagePath s) =
           (jsonSaved \<and>
            (fst (findUserByEmail e 0 email s1) \<noteq> None \<or> \<not> quota_exceeded e Key_csv_users))"
proof -
  have v: "valid_payload u" using assms(1-4) by (rule valid_payloadI)
  show ?thesis
    using saveUserDataDual_result [OF v, of e oldName oldImagePath s] assms(1,3,5,6) by simp
qed

theorem dual_write_result_witness:
  "fst (saveUserJson env_csv_full ''Ann Lee''
         (mk_jsonData ''Ann Lee'' ''ann@x.test'' cleared_payload) None python_storage) \<and>
   fst (findUserByEmail env_csv_full 0 ''ann@x.test''
         (snd (saveUserJson env_csv_full ''Ann Lee''
            (mk_jsonData ''Ann Lee'' ''ann@x.test'' cleared_payload) None python_storage))) \<noteq> None \<and>
   quota_exceeded env_csv_full Key_csv_users \<and>
   fst (saveUserDataDual env_csv_full cleared_payload None None python_storage)"
proof -
  have v: "valid_payload python_payload" by (simp add: payload_eval)
  have row: "List.find (email_matches ''ann@x.test'') (get_csv_users python_storage) \<noteq> None"
    using saveUserDataDual_row [OF v, of env_offline None None empty_storage]
    by (simp add: python_storage_def payload_eval env_offline_def)
  have saved: "fst (saveUserJson env_csv_full ''Ann Lee''
         (mk_jsonData ''Ann Lee'' ''ann@x.test'' cleared_payload) None python_storage)"
    by (rule saveUserJson_ok) (simp_all add: env_csv_full_def)
  have "get_csv_users (snd (saveUserJson env_csv_full ''Ann Lee''
            (mk_jsonData ''Ann Lee'' ''ann@x.test'' cleared_payload) None python_storage)) =
        get_csv_users python_storage"
    by (simp add: saveUserJson_plain env_csv_full_def get_csv_users_def)
  then have found: "fst (findUserByEmail env_csv_full 0 ''ann@x.test''
         (snd (saveUserJson env_csv_full ''Ann Lee''
            (mk_jsonData ''Ann Lee'' ''ann@x.test'' cleared_payload) None python_storage))) \<noteq> None"
    using row by (simp add: findUserByEmail_def readCSV_offline env_csv_full_def)
  show ?thesis
    using dual_write_result [of cleared_payload "''Ann Lee''" "''ann@x.test''" _ env_csv_full None
        python_storage _ None, OF _ _ _ _ refl refl] saved found
    by (simp add: payload_eval env_csv_full_def)
qed

text \<open>
  The counterexample to C8 as stated: the write of \<^verbatim>\<open>csv_users\<close> throws and no row
  matches; the detail record has been written, and the call returns \<open>false\<close>.
\<close>

theorem summary_failure_counterexample:
  "fst (saveUserJson env_csv_full ''Bob''
         (mk_jsonData ''Bob'' ''bob@x.test'' (payload ''Bob'' ''bob@x.test'')) None empty_storage) \<and>
   loadUserJson ''Bob''
     (snd (saveUserDataDual env_csv_full (payload ''Bob'' ''bob@x.test'') None None empty_storage)) =
     Some (mk_jsonData ''Bob'' ''bob@x.test'' (payload ''Bob'' ''bob@x.test'')) \<and>
   fst (saveUserDataDual env_csv_full (payload ''Bob'' ''bob@x.test'') None None empty_storage) = False"
proof -
  have v: "valid_payload (payload ''Bob'' ''bob@x.test'')" by (simp add: payload_eval)
  have saved: "fst (saveUserJson env_csv_full ''Bob''
         (mk_jsonData ''Bob'' ''bob@x.test'' (payload ''Bob'' ''bob@x.test'')) None empty_storage)"
    by (rule saveUserJson_ok) (simp_all add: env_csv_full_def)
  have "fst (findUserByEmail env_csv_full 0 ''bob@x.test''
         (snd (saveUserJson env_csv_full ''Bob''
            (mk_jsonData ''Bob'' ''bob@x.test'' (payload ''Bob'' ''bob@x.test'')) None empty_storage))) = None"
    by (simp add: findUserByEmail_def readCSV_offline saveUserJson_plain env_csv_full_def
        get_csv_users_def empty_storage_def)
  then have "\<not> fst (saveUserDataDual env_csv_full (payload ''Bob'' ''bob@x.test'') None None empty_storage)"
    using saveUserDataDual_result [OF v, of env_csv_full None None empty_storage]
    by (simp add: payload_eval env_csv_full_def)
  then show ?thesis
    using saved saveUserDataDual_detail [OF v, of env_csv_full None None empty_storage]
    by (simp add: payload_eval env_csv_full_def)
qed

text \<open>
  C9. A rename between two different names with the same key loses nothing: when the
  writes of the detail store do not fail, \<^verbatim>\<open>saveUserJson(name, record, oldName)\<close> returns
  \<open>true\<close> and \<open>load(name)\<close>, which is also \<open>load(oldName)\<close>, is the record.
\<close>

theorem same_key_rename_keeps_record:
  assumes "old \<noteq> name" and "getFileName old = getFileName name"
    and "\<not> quota_exceeded e (Key_user_json (getFileName name))"
    and "\<not> quota_exceeded e Key_user_files"
  shows "fst (saveUserJson e name d (Some old) s) \<and>
         loadUserJson name (snd (saveUserJson e name d (Some old) s)) = Some d \<and>
         loadUserJson old (snd (saveUserJson e name d (Some old) s)) = Some d"
proof -
  have ok: "fst (saveUserJson e name d (Some old) s)"
    using assms(3,4) by (rule saveUserJson_ok)
  then have "user_json (snd (saveUserJson e name d (Some old) s)) (getFileName name) = Some d"
    by (rule saveUserJson_stored)
  then show ?thesis using ok assms(2) by (simp add: loadUserJson_def)
qed

theorem same_key_rename_keeps_record_witness:
  "''ann lee'' \<noteq> ''Ann Lee'' \<and> getFileName ''ann lee'' = getFileName ''Ann Lee'' \<and>
   fst (saveUserJson env_offline ''Ann Lee''
          (mk_jsonData ''Ann Lee'' ''ann@x.test'' python_payload) (Some ''ann lee'') python_storage) \<and>
   loadUserJson ''Ann Lee''
     (snd (saveUserJson env_offline ''Ann Lee''
          (mk_jsonData ''Ann Lee'' ''ann@x.test'' python_payload) (Some ''ann lee'') python_storage)) =
     Some (mk_jsonData ''Ann Lee'' ''ann@x.test'' python_payload)"
proof -
  have k: "getFileName ''ann lee'' = getFileName ''Ann Lee''" by (simp add: string_eval)
  have n: "''ann lee'' \<noteq> ''Ann Lee''" by simp
  show ?thesis
    using same_key_rename_keeps_record [OF n k, of env_offline
        "mk_jsonData ''Ann Lee'' ''ann@x.test'' python_payload" python_storage] k
    by (simp add: env_offline_def)
qed

text \<open>
  C10. The deletion-tracking list stays free of duplicates: from a store whose list has
  none (the empty store is one), every sequence of \<^verbatim>\<open>saveUserDataDual\<close> calls, in any
  environments, leads to a store whose list has none; and marking a path that is already
  in the list changes nothing.
\<close>

theorem deleted_images_distinct:
  "distinct (get_deleted_images (run_calls cs empty_storage)) \<and>
   (distinct (get_deleted_images s) \<longrightarrow> distinct (get_deleted_images (run_calls cs s))) \<and>
   (p \<in> set (get_deleted_images s) \<longrightarrow> deleteOldImage e (Some p) s = s)"
proof -
  have "distinct (get_deleted_images empty_storage)"
    by (simp add: get_deleted_images_def empty_storage_def)
  then have "distinct (get_deleted_images (run_calls cs empty_storage))"
    by (rule run_calls_distinct)
  then show ?thesis
    by (simp add: run_calls_distinct deleteOldImage_marked)
qed

lemma marked_run:
  "get_deleted_images
     (run_calls [Call env_legacy (payload ''Ann Lee'' ''ann@x.test'') None (Some ''Faces/a.jpg''),
                 Call env_offline cleared_payload None (Some ''Faces/b.jpg'')] marked_storage) =
   [''Faces/a.jpg'', ''Faces/b.jpg'']"
  by (simp add: model_eval marked_storage_def cleared_payload_def env_legacy_def env_offline_def
      parse_legacy_csv)

theorem deleted_images_distinct_witness:
  "distinct (get_deleted_images marked_storage) \<and>
   ''Faces/a.jpg'' \<in> set (get_deleted_images marked_storage) \<and>
   distinct (get_deleted_images
     (run_calls [Call env_legacy (payload ''Ann Lee'' ''ann@x.test'') None (Some ''Faces/a.jpg''),
                 Call env_offline cleared_payload None (Some ''Faces/b.jpg'')] marked_storage)) \<and>
   get_deleted_images
     (run_calls [Call env_legacy (payload ''Ann Lee'' ''ann@x.test'') None (Some ''Faces/a.jpg''),
                 Call env_offline cleared_payload None (Some ''Faces/b.jpg'')] marked_storage) =
     [''Faces/a.jpg'', ''Faces/b.jpg''] \<and>
   deleteOldImage env_offline (Some ''Faces/a.jpg'') marked_storage = marked_storage"
proof -
  have m: "get_deleted_images marked_storage = [''Faces/a.jpg'']"
    by (simp add: marked_storage_def get_deleted_images_def)
  have "distinct (get_deleted_images
     (run_calls [Call env_legacy (payload ''Ann Lee'' ''ann@x.test'') None (Some ''Faces/a.jpg''),
                 Call env_offline cleared_payload None (Some ''Faces/b.jpg'')] marked_storage)) \<and>
     deleteOldImage env_offline (Some ''Faces/a.jpg'') marked_storage = marked_storage"
    using deleted_images_distinct [of
        "[Call env_legacy (payload ''Ann Lee'' ''ann@x.test'') None (Some ''Faces/a.jpg''),
          Call env_offline cleared_payload None (Some ''Faces/b.jpg'')]"
        marked_storage "''Faces/a.jpg''" env_offline]
    by (simp only: m) simp
  then show ?thesis
    using m marked_run by simp
qed

end
